theory Spec2Isabelle
  imports Complex_Main "HOL-Library.Word"
begin

section \<open>Composite types of the settings subsystem (guc\_composite.c)\<close>

text \<open>
  The development follows \<^verbatim>\<open>src/backend/utils/misc/guc_composite.c\<close>.
  Type names and literals are C strings, modelled as \<^typ>\<open>string\<close>; a \<^verbatim>\<open>char *\<close>
  that may be \<^verbatim>\<open>NULL\<close> is a \<^typ>\<open>string option\<close>.  Sizes, alignments and offsets are
  C \<^verbatim>\<open>int\<close>s; the layout functions compute them in \<^typ>\<open>int\<close>, and the registration
  function reports a value that leaves the \<^verbatim>\<open>int\<close> range, or a remainder by zero, as
  undefined behaviour instead of returning a result.
\<close>

subsection \<open>C library functions on characters and strings\<close>

definition isspace :: "char \<Rightarrow> bool" where
  "isspace c = (c = CHR '' '' \<or> c = CHR 0x09 \<or> c = CHR 0x0A \<or> c = CHR 0x0B
                \<or> c = CHR 0x0C \<or> c = CHR 0x0D)"

definition isdigit :: "char \<Rightarrow> bool" where
  "isdigit c = (48 \<le> (of_char c :: nat) \<and> (of_char c :: nat) \<le> 57)"

definition digit_val :: "char \<Rightarrow> int" where
  "digit_val c = int (of_char c) - 48"

text \<open>The digits read by \<^verbatim>\<open>atoi\<close> and \<^verbatim>\<open>strtol\<close>, most significant first.\<close>

fun digits_val :: "string \<Rightarrow> int \<Rightarrow> int" where
  "digits_val [] acc = acc"
| "digits_val (c # cs) acc =
     (if isdigit c then digits_val cs (acc * 10 + digit_val c) else acc)"

definition LONG_MAX :: int where
  "LONG_MAX = 9223372036854775807"

text \<open>The conversion of a \<^verbatim>\<open>long\<close> to \<^verbatim>\<open>int\<close> keeps the low 32 bits.\<close>

definition int_of_long :: "int \<Rightarrow> int" where
  "int_of_long x = (x + 2147483648) mod 4294967296 - 2147483648"

text \<open>\<^verbatim>\<open>atoi(s)\<close> is \<^verbatim>\<open>(int) strtol(s, NULL, 10)\<close>: \<^verbatim>\<open>strtol\<close> stops at
  \<^verbatim>\<open>LONG_MAX\<close> and \<^verbatim>\<open>LONG_MIN\<close>, and the conversion to \<^verbatim>\<open>int\<close> cuts the value to 32
  bits, so that \<^verbatim>\<open>atoi("4294967297")\<close> is 1.\<close>

definition atoi :: "string \<Rightarrow> int" where
  "atoi s =
     (case dropWhile isspace s of
        [] \<Rightarrow> 0
      | c # cs \<Rightarrow>
          (let v = (if c = CHR ''-'' then - digits_val cs 0
                    else if c = CHR ''+'' then digits_val cs 0
                    else digits_val (c # cs) 0)
           in int_of_long (max (- LONG_MAX - 1) (min v LONG_MAX))))"

text \<open>\<^verbatim>\<open>strchr\<close>: the suffix that starts at the first occurrence, or \<^verbatim>\<open>NULL\<close>.\<close>

definition strchr :: "string \<Rightarrow> char \<Rightarrow> string option" where
  "strchr s c = (case dropWhile (\<lambda>x. x \<noteq> c) s of [] \<Rightarrow> None | r \<Rightarrow> Some r)"

text \<open>The \<^verbatim>\<open>%\<close> of C truncates towards zero.\<close>

definition c_rem :: "int \<Rightarrow> int \<Rightarrow> int" where
  "c_rem a b = sgn a * (\<bar>a\<bar> mod \<bar>b\<bar>)"

definition INT_MAX :: int where
  "INT_MAX = 2147483647"

text \<open>\<^verbatim>\<open>sizeof(void *)\<close> on the 64-bit host the code is written for: the size slot of a
  variable array is addressed both as \<^verbatim>\<open>(char *) p + sizeof(void *)\<close> and as
  \<^verbatim>\<open>(int *) p + 2\<close>.\<close>

definition sizeof_ptr :: int where
  "sizeof_ptr = 8"

subsection \<open>Shapes of type names\<close>

definition is_static_array_type :: "string \<Rightarrow> bool" where
  "is_static_array_type type_name =
     (case strchr type_name CHR ''['' of
        None \<Rightarrow> False
      | Some size_str_begin \<Rightarrow>
          if strchr type_name CHR '']'' = None then False
          else 0 < atoi (tl size_str_begin))"

definition is_dynamic_array_type :: "string \<Rightarrow> bool" where
  "is_dynamic_array_type type_name =
     (case strchr type_name CHR ''['' of
        None \<Rightarrow> False
      | Some size_str_begin \<Rightarrow>
          if strchr type_name CHR '']'' = None then False
          else atoi (tl size_str_begin) \<le> 0)"

definition get_static_array_size :: "string \<Rightarrow> int" where
  "get_static_array_size type_name =
     (case strchr type_name CHR ''['' of
        None \<Rightarrow> - 1
      | Some size_str_begin \<Rightarrow> atoi (tl size_str_begin))"

definition get_array_basic_type :: "string \<Rightarrow> string option" where
  "get_array_basic_type array_type =
     (case strchr array_type CHR ''['' of
        None \<Rightarrow> None
      | Some brace_open \<Rightarrow>
          (case strchr brace_open CHR '']'' of
             None \<Rightarrow> None
           | Some brace_close \<Rightarrow>
               Some (takeWhile (\<lambda>x. x \<noteq> CHR ''['') array_type @ tl brace_close)))"

definition is_atomic_type :: "string \<Rightarrow> bool" where
  "is_atomic_type t = (t = ''bool'' \<or> t = ''int'' \<or> t = ''real'' \<or> t = ''string'')"

subsection \<open>The type registry\<close>

record struct_field =
  f_type :: string
  f_name :: string

text \<open>\<^verbatim>\<open>struct type_definition\<close>.  The array \<^verbatim>\<open>fields\<close> is allocated with
  \<^verbatim>\<open>cnt_fields\<close> slots, of which registration fills the first \<open>length (td_fields d)\<close>;
  \<^verbatim>\<open>offset\<close> is the alignment of the type.\<close>

record type_definition =
  td_type :: string
  signature :: string
  cnt_fields :: int
  td_fields :: "struct_field list"
  type_size :: int
  offset :: int

type_synonym registry = "string \<Rightarrow> type_definition option"

definition get_type_definition :: "registry \<Rightarrow> string \<Rightarrow> type_definition option" where
  "get_type_definition G type_name = G type_name"

subsection \<open>Sizes and alignments\<close>

lemma strchr_Some_length: "strchr s c = Some r \<Longrightarrow> r \<noteq> [] \<and> length r \<le> length s"
proof -
  assume h: "strchr s c = Some r"
  then have r: "r = dropWhile (\<lambda>x. x \<noteq> c) s" and ne: "r \<noteq> []"
    by (auto simp: strchr_def split: list.splits)
  have "length (dropWhile (\<lambda>x. x \<noteq> c) s) \<le> length s"
    by (rule length_dropWhile_le)
  with r ne show ?thesis by simp
qed

lemma strchr_Some_split:
  "strchr s c = Some r \<Longrightarrow> s = takeWhile (\<lambda>x. x \<noteq> c) s @ r \<and> hd r = c"
proof -
  assume h: "strchr s c = Some r"
  then have r: "r = dropWhile (\<lambda>x. x \<noteq> c) s" and ne: "r \<noteq> []"
    by (auto simp: strchr_def split: list.splits)
  from r ne have "hd r = c" using hd_dropWhile [of "\<lambda>x. x \<noteq> c" s] by auto
  with r show ?thesis by simp
qed

lemma get_array_basic_type_length:
  assumes "get_array_basic_type t = Some b"
  shows "length b < length t"
proof -
  from assms obtain bo bc where
    bo: "strchr t CHR ''['' = Some bo" and bc: "strchr bo CHR '']'' = Some bc"
    and b: "b = takeWhile (\<lambda>x. x \<noteq> CHR ''['') t @ tl bc"
    by (auto simp: get_array_basic_type_def split: option.splits)
  from strchr_Some_split [OF bo]
  have t: "t = takeWhile (\<lambda>x. x \<noteq> CHR ''['') t @ bo" by simp
  from strchr_Some_length [OF bc] have "bc \<noteq> []" "length bc \<le> length bo" by simp_all
  then have "length (tl bc) < length bo" by (cases bc) auto
  moreover have "length t = length (takeWhile (\<lambda>x. x \<noteq> CHR ''['') t) + length bo"
    by (subst t) simp
  ultimately show ?thesis by (simp add: b)
qed

function get_type_offset :: "registry \<Rightarrow> string option \<Rightarrow> int" where
  "get_type_offset G None = - 1"
| "get_type_offset G (Some type_name) =
     (if is_dynamic_array_type type_name then sizeof_ptr
      else if is_static_array_type type_name then
        \<comment> \<open>\<^verbatim>\<open>get_array_offset\<close>\<close>
        (case get_array_basic_type type_name of
           None \<Rightarrow> - 1
         | Some basic_type \<Rightarrow>
             (let element_offset = get_type_offset G (Some basic_type)
              in if element_offset < 0 then - 1 else element_offset))
      else
        \<comment> \<open>\<^verbatim>\<open>get_struct_offset\<close>\<close>
        (case get_type_definition G type_name of
           None \<Rightarrow> - 1
         | Some struct_type \<Rightarrow> offset struct_type))"
  by pat_completeness auto
termination
  by (relation "measure (\<lambda>(G, t). case t of None \<Rightarrow> 0 | Some s \<Rightarrow> length s)")
     (auto intro: get_array_basic_type_length)

function get_type_size :: "registry \<Rightarrow> string option \<Rightarrow> int" where
  "get_type_size G None = - 1"
| "get_type_size G (Some type_name) =
     (if is_dynamic_array_type type_name then sizeof_ptr * 2
      else if is_static_array_type type_name then
        \<comment> \<open>\<^verbatim>\<open>get_array_mem_size\<close>; a \<^verbatim>\<open>NULL\<close> element type has offset and size \<open>-1\<close>\<close>
        (case get_array_basic_type type_name of
           None \<Rightarrow> - 1
         | Some basic_type \<Rightarrow>
             (let element_offset = get_type_offset G (Some basic_type);
                  element_size = get_type_size G (Some basic_type)
              in if element_offset < 0 \<or> element_size < 0 then - 1
                 else get_static_array_size type_name
                      * (element_size + c_rem element_size element_offset)))
      else
        \<comment> \<open>\<^verbatim>\<open>get_struct_size\<close>\<close>
        (case get_type_definition G type_name of
           None \<Rightarrow> - 1
         | Some struct_type \<Rightarrow> type_size struct_type))"
  by pat_completeness auto
termination
  by (relation "measure (\<lambda>(G, t). case t of None \<Rightarrow> 0 | Some s \<Rightarrow> length s)")
     (auto intro: get_array_basic_type_length)


subsection \<open>Offsets of elements and fields\<close>

definition canonize_idx :: "string \<Rightarrow> int" where
  "canonize_idx field =
     (case dropWhile (\<lambda>c. c = CHR '' '' \<or> c = CHR 0x09 \<or> c = CHR 0x0B \<or> c = CHR 0x0A) field of
        [] \<Rightarrow> - 1
      | c # cs \<Rightarrow> if isdigit c then atoi field else - 1)"

definition get_element_offset_with_index :: "registry \<Rightarrow> string \<Rightarrow> int \<Rightarrow> int" where
  "get_element_offset_with_index G type_name index =
     (case get_array_basic_type type_name of
        None \<Rightarrow> - 1
      | Some basic_type \<Rightarrow>
          (let element_offset = get_type_offset G (Some basic_type);
               element_size = get_type_size G (Some basic_type)
           in if element_offset < 0 \<or> element_size < 0 then - 1
              else (element_size + c_rem element_size element_offset) * index))"

definition get_array_element_offset :: "registry \<Rightarrow> string \<Rightarrow> string \<Rightarrow> int" where
  "get_array_element_offset G type_name field =
     (let field_idx = canonize_idx field
      in if field_idx < 0 then - 1 else get_element_offset_with_index G type_name field_idx)"

definition get_dynamic_array_mem_size_with_length :: "registry \<Rightarrow> string \<Rightarrow> int \<Rightarrow> int" where
  "get_dynamic_array_mem_size_with_length G type_name len =
     (case get_array_basic_type type_name of
        None \<Rightarrow> - 1
      | Some basic_type \<Rightarrow>
          (let element_offset = get_type_offset G (Some basic_type);
               element_size = get_type_size G (Some basic_type)
           in if element_offset < 0 \<or> element_size < 0 then - 1
              else len * (element_size + c_rem element_size element_offset)))"

text \<open>The loop of \<^verbatim>\<open>get_struct_field_offset\<close> over the slots \<^verbatim>\<open>fields[i]\<close>,
  \<open>i < cnt_fields\<close>, with the running \<^verbatim>\<open>total_offset\<close>.\<close>

definition align_to :: "int \<Rightarrow> int \<Rightarrow> int" where
  "align_to total_offset local_off =
     (if c_rem total_offset local_off \<noteq> 0
      then total_offset + (local_off - c_rem total_offset local_off)
      else total_offset)"

fun struct_field_offset_loop :: "registry \<Rightarrow> struct_field list \<Rightarrow> string \<Rightarrow> int \<Rightarrow> int" where
  "struct_field_offset_loop G [] field total_offset = - 1"
| "struct_field_offset_loop G (f # fs) field total_offset =
     (let local_off = get_type_offset G (Some (f_type f))
      in if local_off < 0 then - 1
         else if f_name f = field then align_to total_offset local_off
         else struct_field_offset_loop G fs field
                (align_to total_offset local_off + get_type_size G (Some (f_type f))))"

definition get_struct_field_offset :: "registry \<Rightarrow> string \<Rightarrow> string \<Rightarrow> int" where
  "get_struct_field_offset G type_name field =
     (case get_type_definition G type_name of
        None \<Rightarrow> - 1
      | Some struct_type \<Rightarrow>
          struct_field_offset_loop G
            (take (nat (cnt_fields struct_type)) (td_fields struct_type)) field 0)"

definition get_field_offset :: "registry \<Rightarrow> string \<Rightarrow> string \<Rightarrow> int" where
  "get_field_offset G type_name field =
     (if is_dynamic_array_type type_name \<and> field = ''data'' then 0
      else if is_dynamic_array_type type_name \<and> field = ''size'' then sizeof_ptr
      else if is_static_array_type type_name \<or> is_dynamic_array_type type_name
      then get_array_element_offset G type_name field
      else get_struct_field_offset G type_name field)"

fun get_struct_field_type_loop :: "struct_field list \<Rightarrow> string \<Rightarrow> string option" where
  "get_struct_field_type_loop [] field = None"
| "get_struct_field_type_loop (f # fs) field =
     (if field = f_name f then Some (f_type f) else get_struct_field_type_loop fs field)"

definition get_struct_field_type :: "registry \<Rightarrow> string \<Rightarrow> string \<Rightarrow> string option" where
  "get_struct_field_type G type_name field =
     (case get_type_definition G type_name of
        None \<Rightarrow> None
      | Some struct_type \<Rightarrow>
          get_struct_field_type_loop
            (take (nat (cnt_fields struct_type)) (td_fields struct_type)) field)"

definition get_field_type_name :: "registry \<Rightarrow> string \<Rightarrow> string \<Rightarrow> string option" where
  "get_field_type_name G type_name field =
     (if is_dynamic_array_type type_name \<and> field = ''size'' then Some ''int''
      else if is_dynamic_array_type type_name \<and> field = ''data'' then Some type_name
      else if is_static_array_type type_name \<or> is_dynamic_array_type type_name
      then get_array_basic_type type_name
      else get_struct_field_type G type_name field)"

text \<open>Both loops stop at the first slot whose name matches.  When no filled slot matches
  and \<open>length (td_fields d) < cnt_fields d\<close>, the C loops go on to read slots that
  registration never wrote; the functions above return \<open>-1\<close> and \<^verbatim>\<open>NULL\<close> there, and
  \<open>reads_unwritten_slot\<close> tells the callers that the C code has no defined result.\<close>

definition reads_unwritten_slot :: "registry \<Rightarrow> string \<Rightarrow> string \<Rightarrow> bool" where
  "reads_unwritten_slot G type_name field =
     (case get_type_definition G type_name of
        None \<Rightarrow> False
      | Some struct_type \<Rightarrow>
          field \<notin> set (map f_name (td_fields struct_type))
          \<and> int (length (td_fields struct_type)) < cnt_fields struct_type)"

subsection \<open>Registration: \<^verbatim>\<open>init_type_definition\<close>\<close>

datatype reg_error = Syntax_error | Undefined_behaviour

text \<open>All tokens that repeated calls of \<^verbatim>\<open>strtok_r\<close> return: maximal runs of characters
  that are not delimiters.\<close>

function strtok_all :: "string \<Rightarrow> string \<Rightarrow> string list" where
  "strtok_all delim s =
     (case dropWhile (\<lambda>c. c \<in> set delim) s of
        [] \<Rightarrow> []
      | c # r \<Rightarrow>
          (c # takeWhile (\<lambda>x. x \<notin> set delim) r)
          # strtok_all delim (dropWhile (\<lambda>x. x \<notin> set delim) r))"
  by pat_completeness auto
termination
proof (relation "measure (\<lambda>(delim, s). length s)", simp, goal_cases)
  case (1 delim s c r)
  have "length (dropWhile (\<lambda>x. x \<notin> set delim) r) \<le> length r"
    by (rule length_dropWhile_le)
  moreover have "length (dropWhile (\<lambda>c. c \<in> set delim) s) \<le> length s"
    by (rule length_dropWhile_le)
  moreover have "length (c # r) = length (dropWhile (\<lambda>c. c \<in> set delim) s)"
    using 1 by simp
  ultimately show ?case by simp
qed

definition STRUCT_FIELDS_DELIMETER :: string where
  "STRUCT_FIELDS_DELIMETER = '';''"

definition word_del :: string where
  "word_del = [CHR '' '', CHR 0x09, CHR 0x0A, CHR 0x0B]"

text \<open>One pass of the outer loop: the field definition \<open>field_def_token\<close> is split into
  words; the first is the type, the second the name, a third is an error.  The state is
  the fields parsed so far, \<^verbatim>\<open>max_offset\<close> and \<^verbatim>\<open>curr_offset\<close>.\<close>

definition parse_field_def ::
  "registry \<Rightarrow> struct_field list \<times> int \<times> int \<Rightarrow> string
   \<Rightarrow> reg_error + struct_field list \<times> int \<times> int" where
  "parse_field_def G st field_def_token =
     (case st of (flds, max_offset, curr_offset) \<Rightarrow>
        (case strtok_all word_del field_def_token of
           [] \<Rightarrow> Inl Syntax_error
         | w0 # ws \<Rightarrow>
             (let type_offset = get_type_offset G (Some w0);
                  type_size = get_type_size G (Some w0)
              in if type_offset < 0 \<or> type_size < 0 then Inl Syntax_error
                 else if type_offset = 0 then Inl Undefined_behaviour
                 else
                   (let max_offset' = (if max_offset < type_offset then type_offset else max_offset);
                        curr_offset' = align_to curr_offset type_offset + type_size
                    in if INT_MAX < curr_offset' then Inl Undefined_behaviour
                       else
                         (case ws of
                            [w1] \<Rightarrow>
                              Inr (flds @ [\<lparr>f_type = w0, f_name = w1\<rparr>], max_offset', curr_offset')
                          | _ \<Rightarrow> Inl Syntax_error)))))"

fun parse_field_defs ::
  "registry \<Rightarrow> struct_field list \<times> int \<times> int \<Rightarrow> string list
   \<Rightarrow> reg_error + struct_field list \<times> int \<times> int" where
  "parse_field_defs G st [] = Inr st"
| "parse_field_defs G st (tok # toks) =
     (case parse_field_def G st tok of
        Inl e \<Rightarrow> Inl e
      | Inr st' \<Rightarrow> parse_field_defs G st' toks)"

definition init_type_definition :: "registry \<Rightarrow> type_definition \<Rightarrow> reg_error + type_definition" where
  "init_type_definition G definition =
     (if signature definition = [] then Inl Syntax_error
      else
        (let count_fields = 1 + int (length (filter (\<lambda>c. c = CHR '';'') (signature definition)))
         in case parse_field_defs G ([], 0, 0)
                   (strtok_all STRUCT_FIELDS_DELIMETER (signature definition)) of
              Inl e \<Rightarrow> Inl e
            | Inr (flds, max_offset, curr_offset) \<Rightarrow>
                if max_offset = 0 then Inl Undefined_behaviour
                else if INT_MAX < align_to curr_offset max_offset then Inl Undefined_behaviour
                else Inr (definition
                       \<lparr> offset := max_offset,
                         type_size := align_to curr_offset max_offset,
                         cnt_fields := count_fields,
                         td_fields := flds \<rparr>)))"

declare get_type_offset.simps(2) [simp del] get_type_size.simps(2) [simp del]
declare strtok_all.simps [simp del]

subsection \<open>Well-formed registries and the positions of the fields\<close>


text \<open>The values that \<^verbatim>\<open>total_offset\<close> takes in the loop of
  \<^verbatim>\<open>get_struct_field_offset\<close> when it reaches each slot in turn: the position of
  every field in declaration order.\<close>

fun field_offsets :: "registry \<Rightarrow> struct_field list \<Rightarrow> int \<Rightarrow> int list" where
  "field_offsets G [] total_offset = []"
| "field_offsets G (f # fs) total_offset =
     (let a = align_to total_offset (get_type_offset G (Some (f_type f)))
      in a # field_offsets G fs (a + get_type_size G (Some (f_type f))))"


text \<open>Modelled from the spec: the registry entries of the four atomic types.  They are
  entered by the settings subsystem (guc.c), which is not part of the sources at hand; the
  walkers recognise them by \<^verbatim>\<open>cnt_fields == 0\<close>.  Per the spec, \<^verbatim>\<open>bool\<close> is one byte,
  \<^verbatim>\<open>int\<close> the host \<^verbatim>\<open>int\<close>, \<^verbatim>\<open>real\<close> the host \<^verbatim>\<open>double\<close> and \<^verbatim>\<open>string\<close> one
  pointer, each at its natural alignment.\<close>

definition builtin_types :: registry where
  "builtin_types =
     [''bool'' \<mapsto> \<lparr>td_type = ''bool'', signature = [], cnt_fields = 0, td_fields = [],
                       type_size = 1, offset = 1\<rparr>,
      ''int'' \<mapsto> \<lparr>td_type = ''int'', signature = [], cnt_fields = 0, td_fields = [],
                      type_size = 4, offset = 4\<rparr>,
      ''real'' \<mapsto> \<lparr>td_type = ''real'', signature = [], cnt_fields = 0, td_fields = [],
                       type_size = 8, offset = 8\<rparr>,
      ''string'' \<mapsto> \<lparr>td_type = ''string'', signature = [], cnt_fields = 0, td_fields = [],
                         type_size = 8, offset = 8\<rparr>]"

text \<open>A definition as it is handed to \<^verbatim>\<open>init_type_definition\<close>: name and signature set,
  the layout not yet computed.\<close>

definition new_type :: "string \<Rightarrow> string \<Rightarrow> type_definition" where
  "new_type name sig = \<lparr>td_type = name, signature = sig, cnt_fields = 0, td_fields = [],
                         type_size = 0, offset = 0\<rparr>"

text \<open>The type \<^verbatim>\<open>node\<close> of the spec's scenarios, as registration computes it.\<close>

definition node_type :: type_definition where
  "node_type = \<lparr>td_type = ''node'', signature = ''string name; string ip; int port'',
     cnt_fields = 3,
     td_fields = [\<lparr>f_type = ''string'', f_name = ''name''\<rparr>,
                  \<lparr>f_type = ''string'', f_name = ''ip''\<rparr>,
                  \<lparr>f_type = ''int'', f_name = ''port''\<rparr>],
     type_size = 24, offset = 8\<rparr>"



section \<open>Values in memory\<close>

text \<open>
  The walkers and the parser work on raw memory through \<^verbatim>\<open>void *\<close>.  The model keeps a
  list of allocated blocks; a pointer is a block and a byte offset into it.  A block that
  holds a value is a map from byte offsets to cells, a scalar sitting in the cell at its
  first byte; a block made by \<^verbatim>\<open>guc_strdup\<close> holds a C string.  Fresh memory from
  \<^verbatim>\<open>guc_malloc\<close> is \<open>Uninit\<close>; memory cleared by \<^verbatim>\<open>memset\<close> is \<open>Zero\<close> and reads as
  the zero of every type, and the null pointer is stored as \<open>Zero\<close>.  Reads and
  writes that overlap a scalar only in part are not modelled.

  Whatever C leaves undefined (an access outside a live block, a read of a cell that
  holds no value of the type read, a double free, an allocation of negative size) sets the
  flag \<open>ub\<close> and leaves the blocks as they are: once the flag is set, the model no
  longer speaks for the code.
\<close>

datatype ptr = Null | Ptr nat int

datatype cell = Uninit | Zero | CBool bool | CInt int | CReal real | CPtr ptr

datatype payload = Cells "int \<Rightarrow> cell" | Text string

record block =
  alive :: bool
  bsize :: int
  payload :: payload

record heap =
  blocks :: "block list"
  ub :: bool

definition ptr_add :: "ptr \<Rightarrow> int \<Rightarrow> ptr" where
  "ptr_add p n = (case p of Null \<Rightarrow> Null | Ptr b off \<Rightarrow> Ptr b (off + n))"

definition in_block :: "heap \<Rightarrow> nat \<Rightarrow> int \<Rightarrow> int \<Rightarrow> bool" where
  "in_block h b off n =
     (b < length (blocks h) \<and> alive (blocks h ! b) \<and> 0 \<le> off \<and> off + n \<le> bsize (blocks h ! b))"

definition load :: "heap \<Rightarrow> ptr \<Rightarrow> int \<Rightarrow> cell option" where
  "load h p n =
     (case p of
        Null \<Rightarrow> None
      | Ptr b off \<Rightarrow>
          if in_block h b off n
          then (case payload (blocks h ! b) of Cells f \<Rightarrow> Some (f off) | Text s \<Rightarrow> None)
          else None)"

definition store :: "heap \<Rightarrow> ptr \<Rightarrow> int \<Rightarrow> cell \<Rightarrow> heap" where
  "store h p n c =
     (case p of
        Null \<Rightarrow> h\<lparr>ub := True\<rparr>
      | Ptr b off \<Rightarrow>
          if in_block h b off n
          then (case payload (blocks h ! b) of
                  Cells f \<Rightarrow>
                    h\<lparr>blocks := (blocks h)[b := (blocks h ! b)\<lparr>payload := Cells (f(off := c))\<rparr>]\<rparr>
                | Text s \<Rightarrow> h\<lparr>ub := True\<rparr>)
          else h\<lparr>ub := True\<rparr>)"

definition read_bool :: "heap \<Rightarrow> ptr \<Rightarrow> bool option" where
  "read_bool h p =
     (case load h p 1 of Some (CBool b) \<Rightarrow> Some b | Some Zero \<Rightarrow> Some False | _ \<Rightarrow> None)"

definition read_int :: "heap \<Rightarrow> ptr \<Rightarrow> int option" where
  "read_int h p =
     (case load h p 4 of Some (CInt i) \<Rightarrow> Some i | Some Zero \<Rightarrow> Some 0 | _ \<Rightarrow> None)"

definition read_real :: "heap \<Rightarrow> ptr \<Rightarrow> real option" where
  "read_real h p =
     (case load h p 8 of Some (CReal r) \<Rightarrow> Some r | Some Zero \<Rightarrow> Some 0 | _ \<Rightarrow> None)"

definition read_ptr :: "heap \<Rightarrow> ptr \<Rightarrow> ptr option" where
  "read_ptr h p =
     (case load h p sizeof_ptr of Some (CPtr q) \<Rightarrow> Some q | Some Zero \<Rightarrow> Some Null | _ \<Rightarrow> None)"

definition store_ptr :: "heap \<Rightarrow> ptr \<Rightarrow> ptr \<Rightarrow> heap" where
  "store_ptr h p q = store h p sizeof_ptr (case q of Null \<Rightarrow> Zero | Ptr b off \<Rightarrow> CPtr q)"

text \<open>The C string a \<^verbatim>\<open>char *\<close> points to.\<close>

definition read_str :: "heap \<Rightarrow> ptr \<Rightarrow> string option" where
  "read_str h p =
     (case p of
        Null \<Rightarrow> None
      | Ptr b off \<Rightarrow>
          if b < length (blocks h) \<and> alive (blocks h ! b) \<and> off = 0
          then (case payload (blocks h ! b) of Text s \<Rightarrow> Some s | Cells f \<Rightarrow> None)
          else None)"

text \<open>Reads inside code that changes the heap: a read without a defined result sets the
  flag and goes on with the zero of the type.\<close>

definition rd_int :: "heap \<Rightarrow> ptr \<Rightarrow> int \<times> heap" where
  "rd_int h p = (case read_int h p of Some i \<Rightarrow> (i, h) | None \<Rightarrow> (0, h\<lparr>ub := True\<rparr>))"

definition rd_ptr :: "heap \<Rightarrow> ptr \<Rightarrow> ptr \<times> heap" where
  "rd_ptr h p = (case read_ptr h p of Some q \<Rightarrow> (q, h) | None \<Rightarrow> (Null, h\<lparr>ub := True\<rparr>))"

definition guc_malloc :: "heap \<Rightarrow> int \<Rightarrow> ptr \<times> heap" where
  "guc_malloc h n =
     (if n < 0 then (Null, h\<lparr>ub := True\<rparr>)
      else (Ptr (length (blocks h)) 0,
            h\<lparr>blocks := blocks h @ [\<lparr>alive = True, bsize = n, payload = Cells (\<lambda>_. Uninit)\<rparr>]\<rparr>))"

definition guc_strdup :: "heap \<Rightarrow> string \<Rightarrow> ptr \<times> heap" where
  "guc_strdup h s =
     (Ptr (length (blocks h)) 0,
      h\<lparr>blocks := blocks h @ [\<lparr>alive = True, bsize = int (length s) + 1, payload = Text s\<rparr>]\<rparr>)"

definition guc_free :: "heap \<Rightarrow> ptr \<Rightarrow> heap" where
  "guc_free h p =
     (case p of
        Null \<Rightarrow> h
      | Ptr b off \<Rightarrow>
          if b < length (blocks h) \<and> alive (blocks h ! b) \<and> off = 0
          then h\<lparr>blocks := (blocks h)[b := (blocks h ! b)\<lparr>alive := False\<rparr>]\<rparr>
          else h\<lparr>ub := True\<rparr>)"

definition memset_zero :: "heap \<Rightarrow> ptr \<Rightarrow> int \<Rightarrow> heap" where
  "memset_zero h p n =
     (if n = 0 then h
      else if n < 0 then h\<lparr>ub := True\<rparr>
      else (case p of
              Null \<Rightarrow> h\<lparr>ub := True\<rparr>
            | Ptr b off \<Rightarrow>
                if in_block h b off n
                then (case payload (blocks h ! b) of
                        Cells f \<Rightarrow>
                          h\<lparr>blocks := (blocks h)[b := (blocks h ! b)
                               \<lparr>payload := Cells (\<lambda>x. if off \<le> x \<and> x < off + n then Zero else f x)\<rparr>]\<rparr>
                      | Text s \<Rightarrow> h\<lparr>ub := True\<rparr>)
                else h\<lparr>ub := True\<rparr>))"

text \<open>The bytes a scalar takes.  \<^verbatim>\<open>memcpy\<close> carries a scalar over when all its bytes
  are copied; a scalar cut by the end of the copied range leaves indeterminate bytes.\<close>

definition cell_width :: "cell \<Rightarrow> int" where
  "cell_width c =
     (case c of Uninit \<Rightarrow> 1 | Zero \<Rightarrow> 1 | CBool b \<Rightarrow> 1 | CInt i \<Rightarrow> 4 | CReal r \<Rightarrow> 8
      | CPtr q \<Rightarrow> sizeof_ptr)"

definition copied_cell :: "(int \<Rightarrow> cell) \<Rightarrow> int \<Rightarrow> int \<Rightarrow> int \<Rightarrow> cell" where
  "copied_cell g soff n k =
     (if k + cell_width (g (soff + k)) \<le> n then g (soff + k) else Uninit)"

definition memcpy :: "heap \<Rightarrow> ptr \<Rightarrow> ptr \<Rightarrow> int \<Rightarrow> heap" where
  "memcpy h dst src n =
     (if n = 0 then h
      else if n < 0 then h\<lparr>ub := True\<rparr>
      else (case (dst, src) of
              (Ptr b off, Ptr sb soff) \<Rightarrow>
                if in_block h b off n \<and> in_block h sb soff n
                then (case (payload (blocks h ! b), payload (blocks h ! sb)) of
                        (Cells f, Cells g) \<Rightarrow>
                          h\<lparr>blocks := (blocks h)[b := (blocks h ! b)
                               \<lparr>payload := Cells (\<lambda>x. if off \<le> x \<and> x < off + n
                                                        then copied_cell g soff n (x - off)
                                                        else f x)\<rparr>]\<rparr>
                      | _ \<Rightarrow> h\<lparr>ub := True\<rparr>)
                else h\<lparr>ub := True\<rparr>
            | _ \<Rightarrow> h\<lparr>ub := True\<rparr>))"

text \<open>\<^verbatim>\<open>dynamic_array_size(ptr)\<close>: the \<^verbatim>\<open>int\<close> behind the data pointer.\<close>

definition dynamic_array_size_ptr :: "ptr \<Rightarrow> ptr" where
  "dynamic_array_size_ptr p = ptr_add p sizeof_ptr"

subsection \<open>Results of the walkers that only read\<close>

text \<open>A walker follows the type through the registry, which in the model need not be
  acyclic; its recursion is bounded by a budget.  \<open>Undef\<close>: the C code has no defined
  result.  \<open>No_fuel\<close>: the budget ran out.\<close>

datatype 'a outcome = Val 'a | Undef | No_fuel

definition of_read :: "'a option \<Rightarrow> 'a outcome" where
  "of_read r = (case r of Some v \<Rightarrow> Val v | None \<Rightarrow> Undef)"

text \<open>The slot \<^verbatim>\<open>fields[i]\<close>, if registration has written it.\<close>

definition field_slot :: "type_definition \<Rightarrow> nat \<Rightarrow> struct_field option" where
  "field_slot d i = (if i < length (td_fields d) then Some (td_fields d ! i) else None)"

subsection \<open>Comparison\<close>

text \<open>The sign of \<^verbatim>\<open>strcmp\<close>.\<close>

fun strcmp_sign :: "string \<Rightarrow> string \<Rightarrow> int" where
  "strcmp_sign [] [] = 0"
| "strcmp_sign [] (y # ys) = - 1"
| "strcmp_sign (x # xs) [] = 1"
| "strcmp_sign (x # xs) (y # ys) =
     (if x = y then strcmp_sign xs ys
      else if (of_char x :: nat) < of_char y then - 1 else 1)"

text \<open>\<^verbatim>\<open>for (i = 0; i < n; i++) { res = f(i); if (res) break; } return res;\<close>\<close>

fun cmp_until :: "(nat \<Rightarrow> int outcome) \<Rightarrow> nat list \<Rightarrow> int outcome" where
  "cmp_until f [] = Val 0"
| "cmp_until f (i # is) =
     (case f i of
        Val r \<Rightarrow> if r \<noteq> 0 then Val r else cmp_until f is
      | Undef \<Rightarrow> Undef
      | No_fuel \<Rightarrow> No_fuel)"

text \<open>A difference of two \<^verbatim>\<open>int\<close>s; signed overflow is undefined.\<close>

definition int_sub :: "int \<Rightarrow> int \<Rightarrow> int outcome" where
  "int_sub a b = (if - INT_MAX - 1 \<le> a - b \<and> a - b \<le> INT_MAX then Val (a - b) else Undef)"

definition sign_of :: "int \<Rightarrow> int" where
  "sign_of res = (if res = 0 then 0 else if res > 0 then 1 else - 1)"

text \<open>In the three functions below \<open>rec\<close> stands for \<^verbatim>\<open>struct_cmp\<close>.\<close>

definition array_data_cmp ::
  "(ptr \<Rightarrow> ptr \<Rightarrow> string \<Rightarrow> int outcome) \<Rightarrow> registry \<Rightarrow> ptr \<Rightarrow> ptr \<Rightarrow> string \<Rightarrow> int
   \<Rightarrow> int outcome" where
  "array_data_cmp rec G first second type sz =
     (let base_type = get_array_basic_type type;
          base_type_size = get_type_size G base_type
      in cmp_until
           (\<lambda>i. case base_type of
                   None \<Rightarrow> Undef
                 | Some bt \<Rightarrow> rec (ptr_add first (base_type_size * int i))
                                  (ptr_add second (base_type_size * int i)) bt)
           [0 ..< nat sz])"

definition dynamic_array_cmp ::
  "(ptr \<Rightarrow> ptr \<Rightarrow> string \<Rightarrow> int outcome) \<Rightarrow> registry \<Rightarrow> heap \<Rightarrow> ptr \<Rightarrow> ptr \<Rightarrow> string
   \<Rightarrow> int outcome" where
  "dynamic_array_cmp rec G h first second type =
     (case (read_ptr h first, read_ptr h second,
            read_int h (dynamic_array_size_ptr first), read_int h (dynamic_array_size_ptr second)) of
        (Some first_data, Some second_data, Some first_size, Some second_size) \<Rightarrow>
          (case int_sub first_size second_size of
             Val cmp \<Rightarrow>
               if cmp \<noteq> 0 then Val cmp
               else array_data_cmp rec G first_data second_data type first_size
           | Undef \<Rightarrow> Undef
           | No_fuel \<Rightarrow> No_fuel)
      | _ \<Rightarrow> Undef)"

definition structure_cmp ::
  "(ptr \<Rightarrow> ptr \<Rightarrow> string \<Rightarrow> int outcome) \<Rightarrow> registry \<Rightarrow> heap \<Rightarrow> ptr \<Rightarrow> ptr \<Rightarrow> string
   \<Rightarrow> int outcome" where
  "structure_cmp rec G h first second type =
     (case get_type_definition G type of
        None \<Rightarrow> Val 2
      | Some struct_type \<Rightarrow>
          if cnt_fields struct_type = 0 then
            (if type = ''string'' then
               (case (read_ptr h first, read_ptr h second) of
                  (Some p, Some q) \<Rightarrow>
                    if p = Null \<and> q = Null then Val 0
                    else if p = Null then Val (- 1)
                    else if q = Null then Val 1
                    else (case (read_str h p, read_str h q) of
                            (Some s, Some t) \<Rightarrow> Val (sign_of (strcmp_sign s t))
                          | _ \<Rightarrow> Undef)
                | _ \<Rightarrow> Undef)
             else if type = ''bool'' then
               (case (read_bool h first, read_bool h second) of
                  (Some a, Some b) \<Rightarrow> Val (sign_of ((if a then 1 else 0) - (if b then 1 else 0)))
                | _ \<Rightarrow> Undef)
             else if type = ''int'' then
               (case (read_int h first, read_int h second) of
                  (Some a, Some b) \<Rightarrow>
                    (case int_sub a b of
                       Val res \<Rightarrow> Val (sign_of res) | Undef \<Rightarrow> Undef | No_fuel \<Rightarrow> No_fuel)
                | _ \<Rightarrow> Undef)
             else if type = ''real'' then
               (case (read_real h first, read_real h second) of
                  (Some a, Some b) \<Rightarrow> Val (if a - b = 0 then 0 else if a - b > 0 then 1 else - 1)
                | _ \<Rightarrow> Undef)
             else Val 2)
          else
            cmp_until
              (\<lambda>i. case field_slot struct_type i of
                      None \<Rightarrow> Undef
                    | Some f \<Rightarrow>
                        (let field_offset = get_field_offset G type (f_name f)
                         in rec (ptr_add first field_offset) (ptr_add second field_offset)
                              (f_type f)))
              [0 ..< nat (cnt_fields struct_type)])"

fun struct_cmp :: "nat \<Rightarrow> registry \<Rightarrow> heap \<Rightarrow> ptr \<Rightarrow> ptr \<Rightarrow> string \<Rightarrow> int outcome" where
  "struct_cmp 0 G h first second type = No_fuel"
| "struct_cmp (Suc n) G h first second type =
     (if is_static_array_type type
      then array_data_cmp (struct_cmp n G h) G first second type (get_static_array_size type)
      else if is_dynamic_array_type type
      then dynamic_array_cmp (struct_cmp n G h) G h first second type
      else structure_cmp (struct_cmp n G h) G h first second type)"

subsection \<open>Release\<close>

text \<open>A loop whose body changes the heap; \<open>None\<close> when the budget of a walker ran out.\<close>

fun for_each :: "(nat \<Rightarrow> heap \<Rightarrow> heap option) \<Rightarrow> nat list \<Rightarrow> heap \<Rightarrow> heap option" where
  "for_each f [] h = Some h"
| "for_each f (i # is) h = (case f i h of None \<Rightarrow> None | Some h' \<Rightarrow> for_each f is h')"

text \<open>A walker called with the \<^verbatim>\<open>NULL\<close> type name dereferences it.\<close>

definition on_type ::
  "(string \<Rightarrow> heap \<Rightarrow> heap option) \<Rightarrow> string option \<Rightarrow> heap \<Rightarrow> heap option" where
  "on_type f t h = (case t of None \<Rightarrow> Some (h\<lparr>ub := True\<rparr>) | Some bt \<Rightarrow> f bt h)"

text \<open>In the three functions below \<open>rec\<close> stands for \<^verbatim>\<open>free_aux_struct_mem\<close>.\<close>

definition free_aux_mem_stat_arr ::
  "(ptr \<Rightarrow> string \<Rightarrow> heap \<Rightarrow> heap option) \<Rightarrow> registry \<Rightarrow> ptr \<Rightarrow> string \<Rightarrow> heap
   \<Rightarrow> heap option" where
  "free_aux_mem_stat_arr rec G delptr type h =
     (let base_type = get_array_basic_type type;
          arr_size = get_static_array_size type
      in for_each
           (\<lambda>i. on_type (rec (ptr_add delptr (get_element_offset_with_index G type (int i))))
                   base_type)
           [0 ..< nat arr_size] h)"

definition free_aux_mem_dyn_arr ::
  "(ptr \<Rightarrow> string \<Rightarrow> heap \<Rightarrow> heap option) \<Rightarrow> registry \<Rightarrow> ptr \<Rightarrow> string \<Rightarrow> heap
   \<Rightarrow> heap option" where
  "free_aux_mem_dyn_arr rec G delptr type h =
     (let base_type = get_array_basic_type type;
          arr_size = get_static_array_size type
      in case for_each
                (\<lambda>i. on_type (rec (ptr_add delptr (get_element_offset_with_index G type (int i))))
                        base_type)
                [0 ..< nat arr_size] h of
           None \<Rightarrow> None
         | Some h1 \<Rightarrow>
             (case rd_ptr h1 delptr of
                (data, h2) \<Rightarrow> Some (store_ptr (guc_free h2 data) delptr Null)))"

definition free_aux_structure_mem ::
  "(ptr \<Rightarrow> string \<Rightarrow> heap \<Rightarrow> heap option) \<Rightarrow> registry \<Rightarrow> ptr \<Rightarrow> string \<Rightarrow> heap
   \<Rightarrow> heap option" where
  "free_aux_structure_mem rec G delptr type h =
     (case get_type_definition G type of
        None \<Rightarrow> Some h
      | Some struct_type \<Rightarrow>
          if cnt_fields struct_type = 0 then
            (if type = ''string''
             then (case rd_ptr h delptr of
                     (s, h1) \<Rightarrow> Some (store_ptr (guc_free h1 s) delptr Null))
             else Some h)
          else
            for_each
              (\<lambda>i h'. case field_slot struct_type i of
                         None \<Rightarrow> Some (h'\<lparr>ub := True\<rparr>)
                       | Some f \<Rightarrow>
                           rec (ptr_add delptr (get_field_offset G type (f_name f))) (f_type f) h')
              [0 ..< nat (cnt_fields struct_type)] h)"

fun free_aux_struct_mem :: "nat \<Rightarrow> registry \<Rightarrow> ptr \<Rightarrow> string \<Rightarrow> heap \<Rightarrow> heap option" where
  "free_aux_struct_mem 0 G delptr type h = None"
| "free_aux_struct_mem (Suc n) G delptr type h =
     (case (if is_static_array_type type
            then free_aux_mem_stat_arr (free_aux_struct_mem n G) G delptr type h
            else Some h) of
        None \<Rightarrow> None
      | Some h1 \<Rightarrow>
          (case (if is_dynamic_array_type type
                 then free_aux_mem_dyn_arr (free_aux_struct_mem n G) G delptr type h1
                 else Some h1) of
             None \<Rightarrow> None
           | Some h2 \<Rightarrow> free_aux_structure_mem (free_aux_struct_mem n G) G delptr type h2))"

definition free_struct :: "nat \<Rightarrow> registry \<Rightarrow> ptr \<Rightarrow> string \<Rightarrow> heap \<Rightarrow> heap option" where
  "free_struct n G delptr type h =
     (case free_aux_struct_mem n G delptr type h of
        None \<Rightarrow> None
      | Some h1 \<Rightarrow> Some (guc_free h1 delptr))"

subsection \<open>Duplication\<close>

text \<open>In the three functions below \<open>rec\<close> stands for \<^verbatim>\<open>struct_dup_impl\<close>.\<close>

definition static_array_duplicate ::
  "(ptr \<Rightarrow> ptr \<Rightarrow> string \<Rightarrow> heap \<Rightarrow> heap option) \<Rightarrow> registry \<Rightarrow> ptr \<Rightarrow> ptr \<Rightarrow> string \<Rightarrow> heap
   \<Rightarrow> heap option" where
  "static_array_duplicate rec G dest_struct src_struct type h =
     (let basic_type = get_array_basic_type type;
          arr_size = get_static_array_size type
      in for_each
           (\<lambda>i. on_type
                   (rec (ptr_add dest_struct (get_element_offset_with_index G type (int i)))
                        (ptr_add src_struct (get_element_offset_with_index G type (int i))))
                   basic_type)
           [0 ..< nat arr_size] h)"

definition dynamic_array_duplicate ::
  "(ptr \<Rightarrow> ptr \<Rightarrow> string \<Rightarrow> heap \<Rightarrow> heap option) \<Rightarrow> registry \<Rightarrow> ptr \<Rightarrow> ptr \<Rightarrow> string \<Rightarrow> heap
   \<Rightarrow> heap option" where
  "dynamic_array_duplicate rec G dest_struct src_struct type h =
     (let basic_type = get_array_basic_type type
      in case rd_int h (dynamic_array_size_ptr src_struct) of
           (arr_size, h1) \<Rightarrow>
             (let arr_mem_size = get_dynamic_array_mem_size_with_length G type arr_size
              in if arr_size = 0
                 then Some (store (store_ptr h1 dest_struct Null)
                              (ptr_add dest_struct sizeof_ptr) sizeof_ptr Zero)
                 else
                   (case rd_ptr h1 src_struct of
                      (datap, h2) \<Rightarrow>
                        (case guc_malloc h2 arr_mem_size of
                           (dstp, h3) \<Rightarrow>
                             (case for_each
                                     (\<lambda>i. on_type
                                             (rec (ptr_add dstp (get_element_offset_with_index G type (int i)))
                                                  (ptr_add datap (get_element_offset_with_index G type (int i))))
                                             basic_type)
                                     [0 ..< nat arr_size] (store_ptr h3 dest_struct dstp) of
                                None \<Rightarrow> None
                              | Some h4 \<Rightarrow>
                                  Some (store h4 (ptr_add dest_struct sizeof_ptr) 4 (CInt arr_size)))))))"

definition struct_duplicate ::
  "(ptr \<Rightarrow> ptr \<Rightarrow> string \<Rightarrow> heap \<Rightarrow> heap option) \<Rightarrow> registry \<Rightarrow> ptr \<Rightarrow> ptr \<Rightarrow> string \<Rightarrow> heap
   \<Rightarrow> heap option" where
  "struct_duplicate rec G dest_struct src_struct type h =
     (case get_type_definition G type of
        None \<Rightarrow> Some h
      | Some struct_type \<Rightarrow>
          if cnt_fields struct_type = 0 then
            (if type = ''string'' then
               (case rd_ptr h src_struct of
                  (s, h1) \<Rightarrow>
                    if s \<noteq> Null then
                      (case read_str h1 s of
                         None \<Rightarrow> Some (h1\<lparr>ub := True\<rparr>)
                       | Some txt \<Rightarrow>
                           (case guc_strdup h1 txt of
                              (q, h2) \<Rightarrow> Some (store_ptr h2 dest_struct q)))
                    else Some (store_ptr h1 dest_struct Null))
             else Some (memcpy h dest_struct src_struct (type_size struct_type)))
          else
            for_each
              (\<lambda>i h'. case field_slot struct_type i of
                         None \<Rightarrow> Some (h'\<lparr>ub := True\<rparr>)
                       | Some f \<Rightarrow>
                           (let field_offset = get_field_offset G type (f_name f)
                            in rec (ptr_add dest_struct field_offset)
                                 (ptr_add src_struct field_offset) (f_type f) h'))
              [0 ..< nat (cnt_fields struct_type)] h)"

fun struct_dup_impl :: "nat \<Rightarrow> registry \<Rightarrow> ptr \<Rightarrow> ptr \<Rightarrow> string \<Rightarrow> heap \<Rightarrow> heap option" where
  "struct_dup_impl 0 G dest_struct src_struct type h = None"
| "struct_dup_impl (Suc n) G dest_struct src_struct type h =
     (if is_static_array_type type
      then static_array_duplicate (struct_dup_impl n G) G dest_struct src_struct type h
      else if is_dynamic_array_type type
      then dynamic_array_duplicate (struct_dup_impl n G) G dest_struct src_struct type h
      else struct_duplicate (struct_dup_impl n G) G dest_struct src_struct type h)"

definition struct_dup :: "nat \<Rightarrow> registry \<Rightarrow> ptr \<Rightarrow> string \<Rightarrow> heap \<Rightarrow> (ptr \<times> heap) option" where
  "struct_dup n G structp type h =
     (if structp = Null then Some (Null, h)
      else (case guc_malloc h (get_type_size G (Some type)) of
              (duplicate, h1) \<Rightarrow>
                (case struct_dup_impl n G duplicate structp type h1 of
                   None \<Rightarrow> None
                 | Some h2 \<Rightarrow> Some (duplicate, h2))))"

subsection \<open>Host functions\<close>

text \<open>
  The parsers of atomic values, the quote escaping and the setting
  \<^verbatim>\<open>expand_array_view_thd\<close> belong to the host; the functions of this file receive them
  in a record.  \<^verbatim>\<open>double\<close> values are modelled as real numbers, so rounding, infinities
  and NaN are outside the model.
\<close>

record externals =
  DeescapeQuotedString :: "string \<Rightarrow> string"
  escape_single_quotes_ascii :: "string \<Rightarrow> string"
  parse_bool :: "string \<Rightarrow> bool option"
  parse_int :: "string \<Rightarrow> int option"
  parse_real :: "string \<Rightarrow> real option"
  print_real :: "real \<Rightarrow> string"
  expand_array_view_thd :: int

subsection \<open>Serialization\<close>

text \<open>\<^verbatim>\<open>sprintf("%d")\<close>.\<close>

fun show_nat :: "nat \<Rightarrow> string" where
  "show_nat n =
     (if n < 10 then [char_of (48 + n)]
      else show_nat (n div 10) @ [char_of (48 + n mod 10)])"

declare show_nat.simps [simp del]

definition show_int :: "int \<Rightarrow> string" where
  "show_int i = (if i < 0 then CHR ''-'' # show_nat (nat (- i)) else show_nat (nat i))"

text \<open>The serializers return newly allocated text or \<^verbatim>\<open>NULL\<close>; the model returns the
  text itself and does not enter the temporary strings into the heap.\<close>

text \<open>The loop that fills \<^verbatim>\<open>parts[i]\<close>; \<open>Val None\<close> is the jump to \<^verbatim>\<open>out\<close>, after
  which the function returns \<^verbatim>\<open>NULL\<close>.\<close>

fun collect_parts ::
  "(nat \<Rightarrow> string option outcome) \<Rightarrow> nat list \<Rightarrow> string list option outcome" where
  "collect_parts f [] = Val (Some [])"
| "collect_parts f (i # is) =
     (case f i of
        Val None \<Rightarrow> Val None
      | Val (Some s) \<Rightarrow>
          (case collect_parts f is of
             Val (Some ss) \<Rightarrow> Val (Some (s # ss))
           | Val None \<Rightarrow> Val None
           | Undef \<Rightarrow> Undef
           | No_fuel \<Rightarrow> No_fuel)
      | Undef \<Rightarrow> Undef
      | No_fuel \<Rightarrow> No_fuel)"

text \<open>The concatenation: every part but the last is followed by \<^verbatim>\<open>", "\<close>, then comes
  \<^verbatim>\<open>parts[n - 1]\<close>.  With no parts at all the code reads \<^verbatim>\<open>parts[-1]\<close>, outside the
  array.\<close>

definition glue_parts :: "string list \<Rightarrow> string outcome" where
  "glue_parts parts =
     (case parts of
        [] \<Rightarrow> Undef
      | _ \<Rightarrow> Val (concat (map (\<lambda>p. p @ '', '') (butlast parts)) @ last parts))"

text \<open>In the functions below \<open>rec\<close> stands for \<^verbatim>\<open>struct_to_str\<close>.\<close>

definition static_array_to_str ::
  "(ptr \<Rightarrow> string \<Rightarrow> string option outcome) \<Rightarrow> registry \<Rightarrow> ptr \<Rightarrow> string
   \<Rightarrow> string option outcome" where
  "static_array_to_str rec G structp type =
     (let array_size = get_static_array_size type
      in case get_array_basic_type type of
           None \<Rightarrow> Val None
         | Some element_type \<Rightarrow>
             if array_size < 0 then Val None
             else
               (case collect_parts
                       (\<lambda>i. let offset = get_element_offset_with_index G type (int i)
                             in if offset < 0 then Val None
                                else rec (ptr_add structp offset) element_type)
                       [0 ..< nat array_size] of
                  Val (Some parts) \<Rightarrow>
                    (case glue_parts parts of
                       Val s \<Rightarrow> Val (Some (''['' @ s @ '']''))
                     | Undef \<Rightarrow> Undef
                     | No_fuel \<Rightarrow> No_fuel)
                | Val None \<Rightarrow> Val None
                | Undef \<Rightarrow> Undef
                | No_fuel \<Rightarrow> No_fuel))"

definition dynamic_array_to_str ::
  "(ptr \<Rightarrow> string \<Rightarrow> string option outcome) \<Rightarrow> externals \<Rightarrow> registry \<Rightarrow> heap \<Rightarrow> ptr \<Rightarrow> string
   \<Rightarrow> string option outcome" where
  "dynamic_array_to_str rec E G h structp type =
     (case read_int h (dynamic_array_size_ptr structp) of
        None \<Rightarrow> Undef
      | Some array_size \<Rightarrow>
          (case get_array_basic_type type of
             None \<Rightarrow> Val None
           | Some element_type \<Rightarrow>
               (case read_ptr h structp of
                  None \<Rightarrow> Undef
                | Some datap \<Rightarrow>
                    (let is_expand = (expand_array_view_thd E \<le> array_size)
                     in case collect_parts
                               (\<lambda>i. let offset = get_element_offset_with_index G type (int i)
                                     in if offset < 0 then Val None
                                        else rec (ptr_add datap offset) element_type)
                               [0 ..< nat array_size] of
                          Val (Some parts) \<Rightarrow>
                            (case glue_parts parts of
                               Val s \<Rightarrow>
                                 Val (Some (if is_expand
                                            then ''{size: '' @ show_int array_size @ '', data: [''
                                                 @ s @ '']}''
                                            else ''['' @ s @ '']''))
                             | Undef \<Rightarrow> Undef
                             | No_fuel \<Rightarrow> No_fuel)
                        | Val None \<Rightarrow> Val None
                        | Undef \<Rightarrow> Undef
                        | No_fuel \<Rightarrow> No_fuel))))"

text \<open>The text of a \<^verbatim>\<open>real\<close> is printed with \<^verbatim>\<open>sprintf("%lf")\<close> into a buffer of
  \<^verbatim>\<open>DBL_MAX_10_EXP + 3\<close> bytes; a text that does not fit with its terminator runs over the
  end of the buffer.\<close>

definition DBL_MAX_10_EXP :: int where
  "DBL_MAX_10_EXP = 308"

definition atomic_to_str ::
  "externals \<Rightarrow> heap \<Rightarrow> ptr \<Rightarrow> string \<Rightarrow> bool \<Rightarrow> string option outcome" where
  "atomic_to_str E h structp type serialize =
     (let quote = (\<lambda>buf. if serialize \<or> (type = ''string'' \<and> buf \<noteq> ''nil'')
                          then [CHR 0x27] @ buf @ [CHR 0x27] else buf)
      in if type = ''bool'' then
           (case read_bool h structp of
              None \<Rightarrow> Undef
            | Some b \<Rightarrow> Val (Some (quote (if b then ''true'' else ''false''))))
         else if type = ''int'' then
           (case read_int h structp of
              None \<Rightarrow> Undef
            | Some i \<Rightarrow> Val (Some (quote (show_int i))))
         else if type = ''real'' then
           (case read_real h structp of
              None \<Rightarrow> Undef
            | Some r \<Rightarrow>
                if DBL_MAX_10_EXP + 3 < int (length (print_real E r)) + 1 then Undef
                else Val (Some (quote (print_real E r))))
         else if type = ''string'' then
           (case read_ptr h structp of
              None \<Rightarrow> Undef
            | Some Null \<Rightarrow> Val (Some (quote ''nil''))
            | Some (Ptr b off) \<Rightarrow>
                (case read_str h (Ptr b off) of
                   None \<Rightarrow> Undef
                 | Some s \<Rightarrow>
                     Val (Some (quote (if serialize then escape_single_quotes_ascii E s else s)))))
         else Val None)"

definition structure_to_str ::
  "(ptr \<Rightarrow> string \<Rightarrow> string option outcome) \<Rightarrow> externals \<Rightarrow> registry \<Rightarrow> heap \<Rightarrow> ptr \<Rightarrow> string
   \<Rightarrow> bool \<Rightarrow> string option outcome" where
  "structure_to_str rec E G h structp type serialize =
     (if is_atomic_type type then atomic_to_str E h structp type serialize
      else
        (case get_type_definition G type of
           None \<Rightarrow> Val None
         | Some struct_type \<Rightarrow>
             (case collect_parts
                     (\<lambda>i. case field_slot struct_type i of
                             None \<Rightarrow> Undef
                           | Some f \<Rightarrow>
                               (let offset = get_field_offset G (td_type struct_type) (f_name f)
                                in if offset < 0 then Val None
                                   else (case rec (ptr_add structp offset) (f_type f) of
                                           Val (Some s) \<Rightarrow> Val (Some (f_name f @ '': '' @ s))
                                         | r \<Rightarrow> r)))
                     [0 ..< nat (cnt_fields struct_type)] of
                Val (Some parts) \<Rightarrow>
                  (case glue_parts parts of
                     Val s \<Rightarrow> Val (Some (''{'' @ s @ ''}''))
                   | Undef \<Rightarrow> Undef
                   | No_fuel \<Rightarrow> No_fuel)
              | Val None \<Rightarrow> Val None
              | Undef \<Rightarrow> Undef
              | No_fuel \<Rightarrow> No_fuel)))"

fun struct_to_str ::
  "nat \<Rightarrow> externals \<Rightarrow> registry \<Rightarrow> heap \<Rightarrow> ptr \<Rightarrow> string \<Rightarrow> bool \<Rightarrow> string option outcome" where
  "struct_to_str 0 E G h structp type serialize = No_fuel"
| "struct_to_str (Suc n) E G h structp type serialize =
     (if is_static_array_type type
      then static_array_to_str (\<lambda>p t. struct_to_str n E G h p t serialize) G structp type
      else if is_dynamic_array_type type
      then dynamic_array_to_str (\<lambda>p t. struct_to_str n E G h p t serialize) E G h structp type
      else structure_to_str (\<lambda>p t. struct_to_str n E G h p t serialize) E G h structp type
             serialize)"

section \<open>The parser\<close>

subsection \<open>The scratch buffer and the scanner\<close>

text \<open>
  \<^verbatim>\<open>parse_composite\<close> copies the literal into a scratch buffer, which the parser scans
  and changes in place.  The buffer is a list of characters that ends with the terminator
  \<open>NUL\<close>; a \<^verbatim>\<open>char *\<close> into it is an index.  A read outside the list yields \<open>NUL\<close>.
\<close>

definition NUL :: char where
  "NUL = CHR 0x00"

definition char_at :: "string \<Rightarrow> nat \<Rightarrow> char" where
  "char_at b i = (if i < length b then b ! i else NUL)"

text \<open>The C string that starts at an index.\<close>

definition c_string :: "string \<Rightarrow> nat \<Rightarrow> string" where
  "c_string b i = takeWhile (\<lambda>c. c \<noteq> NUL) (drop i b)"

text \<open>\<^verbatim>\<open>for (; isspace(*c); c++);\<close>\<close>

definition skip_space :: "string \<Rightarrow> nat \<Rightarrow> nat" where
  "skip_space b c = c + length (takeWhile isspace (drop c b))"

text \<open>\<^verbatim>\<open>for (; p < bound && isspace(*p); p++);\<close>\<close>

definition skip_space_until :: "string \<Rightarrow> nat \<Rightarrow> nat \<Rightarrow> nat" where
  "skip_space_until b p bound = p + length (takeWhile isspace (take (bound - p) (drop p b)))"

text \<open>\<^verbatim>\<open>for (; isspace(*(p - 1)); p--);\<close>  The scan stops at the start of the buffer.\<close>

fun back_over_space :: "string \<Rightarrow> nat \<Rightarrow> nat" where
  "back_over_space b 0 = 0"
| "back_over_space b (Suc i) = (if isspace (char_at b i) then back_over_space b i else Suc i)"

text \<open>\<^verbatim>\<open>for (; p > lo && isspace(*(p - 1)); p--);\<close>\<close>

fun back_over_space_until :: "string \<Rightarrow> nat \<Rightarrow> nat \<Rightarrow> nat" where
  "back_over_space_until b lo 0 = 0"
| "back_over_space_until b lo (Suc i) =
     (if lo < Suc i \<and> isspace (char_at b i) then back_over_space_until b lo i else Suc i)"

datatype parser_status = PARSER_OK | PARSER_FAIL | PARSER_ERR | PARSER_NOT_FOUND

text \<open>\<^verbatim>\<open>struct parser_res\<close>, with the members the parser uses.  \<open>res_str\<close> and
  \<open>parse_end\<close> point into the scratch buffer; the name that \<^verbatim>\<open>get_name\<close> returns in
  \<^verbatim>\<open>res_str\<close> is returned beside the record.\<close>

record parser_res =
  status :: parser_status
  res_int :: int
  res_str :: nat
  parse_end :: nat

text \<open>\<^verbatim>\<open>parser_res result = {}\<close>: the status is \<^verbatim>\<open>PARSER_OK\<close>, the first enumerator.\<close>

definition res0 :: parser_res where
  "res0 = \<lparr>status = PARSER_OK, res_int = 0, res_str = 0, parse_end = 0\<rparr>"

text \<open>The local variables of \<^verbatim>\<open>find_same_level_symbol\<close>.\<close>

record scan_state =
  braces_cntr :: int
  brackets_cntr :: int
  in_str :: bool
  quote_cntr :: bool

text \<open>The chain of conditionals in the body of its loop, at the character \<open>x\<close> that is
  followed by \<open>nxt\<close>.\<close>

definition scan_step :: "char \<Rightarrow> char \<Rightarrow> scan_state \<Rightarrow> scan_state" where
  "scan_step x nxt s =
     (if x = CHR ''{'' \<and> \<not> in_str s then s\<lparr>braces_cntr := braces_cntr s + 1\<rparr>
      else if x = CHR ''}'' \<and> \<not> in_str s then s\<lparr>braces_cntr := braces_cntr s - 1\<rparr>
      else if x = CHR ''['' \<and> \<not> in_str s then s\<lparr>brackets_cntr := brackets_cntr s + 1\<rparr>
      else if x = CHR '']'' \<and> \<not> in_str s then s\<lparr>brackets_cntr := brackets_cntr s - 1\<rparr>
      else if x = CHR 0x27 then
        (if in_str s \<and> \<not> quote_cntr s \<and> nxt \<noteq> CHR 0x27
         then s\<lparr>quote_cntr := False, in_str := False\<rparr>
         else if \<not> in_str s then s\<lparr>quote_cntr := False, in_str := True\<rparr>
         else s\<lparr>quote_cntr := \<not> quote_cntr s\<rparr>)
      else s)"

text \<open>The loop over the rest of the buffer: \<open>c\<close> is the index of the first character of
  the rest; the result is the index where the loop stops.\<close>

fun scan_same_level :: "char \<Rightarrow> string \<Rightarrow> nat \<Rightarrow> scan_state \<Rightarrow> nat" where
  "scan_same_level symbol [] c s = c"
| "scan_same_level symbol (x # xs) c s =
     (if x = NUL then c
      else if x = symbol \<and> \<not> in_str s \<and> braces_cntr s = 0 \<and> brackets_cntr s = 0 then c
      else if braces_cntr (scan_step x (case xs of [] \<Rightarrow> NUL | y # ys \<Rightarrow> y) s) < 0
              \<or> brackets_cntr (scan_step x (case xs of [] \<Rightarrow> NUL | y # ys \<Rightarrow> y) s) < 0 then c
      else scan_same_level symbol xs (Suc c) (scan_step x (case xs of [] \<Rightarrow> NUL | y # ys \<Rightarrow> y) s))"

definition find_same_level_symbol :: "string \<Rightarrow> nat \<Rightarrow> char \<Rightarrow> parser_res" where
  "find_same_level_symbol b start symbol =
     (let c = scan_same_level symbol (drop start b) start
                \<lparr>braces_cntr = 0, brackets_cntr = 0, in_str = False, quote_cntr = False\<rparr>
      in \<lparr>status = (if char_at b c = symbol then PARSER_OK else PARSER_NOT_FOUND),
          res_int = 0, res_str = c, parse_end = 0\<rparr>)"

text \<open>The delimiter that ends an element or a field: the next comma on the same level, or
  the closing symbol if it comes first.  \<open>None\<close> where \<^verbatim>\<open>get_index\<close> and
  \<^verbatim>\<open>get_name\<close> go to \<^verbatim>\<open>process_err\<close>.\<close>

definition next_delimiter :: "string \<Rightarrow> nat \<Rightarrow> char \<Rightarrow> nat option" where
  "next_delimiter b start close =
     (let comma_res = find_same_level_symbol b start CHR '','';
          nd = (if status comma_res = PARSER_OK then Some (res_str comma_res) else None);
          search_res = find_same_level_symbol b start close
      in if status search_res = PARSER_OK \<and> (nd = None \<or> res_str search_res < the nd)
         then Some (res_str search_res)
         else if status search_res = PARSER_NOT_FOUND then None
         else nd)"

text \<open>\<^verbatim>\<open>(int) strtol(s, &end, 10)\<close> on a string that starts with a digit: the value of the
  leading digits, \<^verbatim>\<open>LONG_MAX\<close> when it is too large, cut to 32 bits; and the number of
  digits read.\<close>

definition strtol_int :: "string \<Rightarrow> int \<times> nat" where
  "strtol_int s =
     (let ds = takeWhile isdigit s;
          v = min (digits_val ds 0) LONG_MAX
      in (int_of_long v, length ds))"

definition get_index :: "string \<Rightarrow> nat \<Rightarrow> parser_res" where
  "get_index b start =
     (case next_delimiter b start CHR '']'' of
        None \<Rightarrow> res0\<lparr>status := PARSER_ERR\<rparr>
      | Some nd \<Rightarrow>
          (let search_res = find_same_level_symbol b start CHR '':'';
               colon = res_str search_res
           in if status search_res = PARSER_NOT_FOUND
              then res0\<lparr>status := PARSER_NOT_FOUND, parse_end := nd\<rparr>
              else if nd < colon then res0\<lparr>status := PARSER_NOT_FOUND, parse_end := nd\<rparr>
              else
                (let index_start = skip_space_until b start colon;
                     index_end = back_over_space_until b index_start colon
                 in if index_end \<le> index_start
                    then res0\<lparr>status := PARSER_ERR, parse_end := nd\<rparr>
                    else if \<not> list_all isdigit (take (index_end - index_start) (drop index_start b))
                    then res0\<lparr>status := PARSER_ERR, parse_end := nd\<rparr>
                    else
                      (case strtol_int (drop index_start b) of
                         (index, len) \<Rightarrow>
                           if index_start + len \<noteq> index_end
                           then res0\<lparr>status := PARSER_ERR, parse_end := nd\<rparr>
                           else res0\<lparr>status := PARSER_OK, res_int := index, parse_end := nd\<rparr>))))"

definition get_name :: "string \<Rightarrow> nat \<Rightarrow> parser_res \<times> string" where
  "get_name b start =
     (case next_delimiter b start CHR ''}'' of
        None \<Rightarrow> (res0\<lparr>status := PARSER_ERR\<rparr>, [])
      | Some nd \<Rightarrow>
          (let search_res = find_same_level_symbol b start CHR '':'';
               colon = res_str search_res
           in if status search_res = PARSER_NOT_FOUND
              then (res0\<lparr>status := PARSER_ERR, parse_end := nd\<rparr>, [])
              else
                (let name_start = skip_space_until b start colon;
                     name_end = back_over_space_until b name_start colon
                 in if name_end \<le> name_start
                    then (res0\<lparr>status := PARSER_ERR, parse_end := nd\<rparr>, [])
                    else (res0\<lparr>status := PARSER_OK, parse_end := nd\<rparr>,
                          take (name_end - name_start) (drop name_start b)))))"

text \<open>Where the scanner reports a found symbol, the symbol is inside the buffer and not
  before the start of the search.\<close>

lemma scan_same_level_ge: "c \<le> scan_same_level symbol xs c s"
proof (induction xs arbitrary: c s)
  case Nil
  show ?case by simp
next
  case (Cons x xs)
  have "Suc c \<le> scan_same_level symbol xs (Suc c) (scan_step x (case xs of [] \<Rightarrow> NUL | y # ys \<Rightarrow> y) s)"
    by (rule Cons)
  then show ?case by simp
qed

lemma find_same_level_symbol_ge: "start \<le> res_str (find_same_level_symbol b start symbol)"
  by (simp add: find_same_level_symbol_def Let_def scan_same_level_ge)

lemma find_same_level_symbol_lt:
  "status (find_same_level_symbol b start symbol) = PARSER_OK \<Longrightarrow> symbol \<noteq> NUL
   \<Longrightarrow> res_str (find_same_level_symbol b start symbol) < length b"
  by (auto simp: find_same_level_symbol_def Let_def char_at_def split: if_splits)

lemma next_delimiter_bounds:
  assumes "next_delimiter b start close = Some nd" and "close \<noteq> NUL"
  shows "start \<le> nd \<and> nd < length b"
proof -
  have comma: "CHR '','' \<noteq> NUL" by (simp add: NUL_def)
  let ?c = "find_same_level_symbol b start CHR '',''"
  let ?s = "find_same_level_symbol b start close"
  from assms(1) have "(nd = res_str ?s \<and> status ?s = PARSER_OK)
      \<or> (nd = res_str ?c \<and> status ?c = PARSER_OK)"
    by (auto simp: next_delimiter_def Let_def split: if_splits)
  then show ?thesis
    using find_same_level_symbol_ge [of start b] find_same_level_symbol_lt [OF _ comma, of b start]
      find_same_level_symbol_lt [OF _ assms(2), of b start]
    by auto
qed

lemma get_index_bounds:
  "status (get_index b start) = PARSER_OK \<or> status (get_index b start) = PARSER_NOT_FOUND
   \<Longrightarrow> start \<le> parse_end (get_index b start) \<and> parse_end (get_index b start) < length b"
proof (cases "next_delimiter b start CHR '']''")
  case None
  assume "status (get_index b start) = PARSER_OK \<or> status (get_index b start) = PARSER_NOT_FOUND"
  with None show ?thesis by (simp add: get_index_def)
next
  case (Some nd)
  have "CHR '']'' \<noteq> NUL" by (simp add: NUL_def)
  from next_delimiter_bounds [OF Some this] have nd: "start \<le> nd \<and> nd < length b" .
  have "parse_end (get_index b start) = nd"
    by (simp add: get_index_def Some Let_def split: prod.splits)
  with nd show ?thesis by simp
qed

lemma get_index_status: "status (get_index b start) \<noteq> PARSER_FAIL"
  by (simp add: get_index_def Let_def res0_def split: option.splits prod.splits)

lemma get_name_bounds:
  "status (fst (get_name b start)) = PARSER_OK
   \<Longrightarrow> start \<le> parse_end (fst (get_name b start)) \<and> parse_end (fst (get_name b start)) < length b"
proof (cases "next_delimiter b start CHR ''}''")
  case None
  assume "status (fst (get_name b start)) = PARSER_OK"
  with None show ?thesis by (simp add: get_name_def)
next
  case (Some nd)
  have "CHR ''}'' \<noteq> NUL" by (simp add: NUL_def)
  from next_delimiter_bounds [OF Some this] have nd: "start \<le> nd \<and> nd < length b" .
  have "parse_end (fst (get_name b start)) = nd"
    by (simp add: get_name_def Some Let_def)
  with nd show ?thesis by simp
qed

lemma get_index_measure:
  assumes "x = get_index b (Suc next_del)"
    and "status x = PARSER_OK \<or> status x = PARSER_NOT_FOUND"
  shows "length b - parse_end x < length b - next_del"
  using get_index_bounds [of b "Suc next_del"] assms by auto

text \<open>The loop of \<^verbatim>\<open>get_max_index\<close>.  \<open>state\<close> is \<open>1\<close> when the elements carry
  indexes and \<open>-1\<close> when they do not.\<close>

function get_max_index_loop :: "string \<Rightarrow> int \<Rightarrow> nat \<Rightarrow> int \<Rightarrow> parser_res" where
  "get_max_index_loop b state next_del index =
     (if char_at b next_del = CHR '']''
      then res0\<lparr>status := PARSER_OK, res_int := index\<rparr>
      else
        (let next_idx_st = get_index b (Suc next_del)
         in if status next_idx_st = PARSER_OK then
              (if state = - 1 then res0\<lparr>status := PARSER_ERR\<rparr>
               else get_max_index_loop b state (parse_end next_idx_st)
                      (if index < res_int next_idx_st then res_int next_idx_st else index))
            else if status next_idx_st = PARSER_NOT_FOUND then
              (if state = 1 then res0\<lparr>status := PARSER_ERR\<rparr>
               else get_max_index_loop b state (parse_end next_idx_st) (index + 1))
            else res0\<lparr>status := PARSER_ERR\<rparr>))"
  by pat_completeness auto
termination
  by (relation "measure (\<lambda>(b, state, next_del, index). length b - next_del)")
     (auto intro: get_index_measure)

declare get_max_index_loop.simps [simp del]

definition get_max_index :: "string \<Rightarrow> nat \<Rightarrow> parser_res" where
  "get_max_index b start =
     (let index_state = get_index b start
      in if status index_state = PARSER_OK
         then get_max_index_loop b 1 (parse_end index_state) (res_int index_state)
         else if status index_state = PARSER_NOT_FOUND
         then get_max_index_loop b (- 1) (parse_end index_state) 0
         else res0\<lparr>status := PARSER_ERR\<rparr>)"

definition is_empty_array :: "string \<Rightarrow> nat \<Rightarrow> nat \<Rightarrow> bool" where
  "is_empty_array b start end_pos = (skip_space b (Suc start) = end_pos)"

text \<open>\<^verbatim>\<open>check_braces\<close> returns the closing symbol or \<^verbatim>\<open>NULL\<close>.\<close>

definition check_braces :: "string \<Rightarrow> nat \<Rightarrow> char \<Rightarrow> char \<Rightarrow> nat option" where
  "check_braces b start opening closing =
     (if char_at b start \<noteq> opening then None
      else (let search_res = find_same_level_symbol b (Suc start) closing
            in if status search_res = PARSER_OK then Some (res_str search_res) else None))"

definition check_array_syntax :: "string \<Rightarrow> nat \<Rightarrow> parser_res" where
  "check_array_syntax b start =
     (case check_braces b start CHR ''['' CHR '']'' of
        None \<Rightarrow> res0\<lparr>status := PARSER_ERR\<rparr>
      | Some pe \<Rightarrow>
          if is_empty_array b start pe then res0\<lparr>status := PARSER_OK, parse_end := pe\<rparr>
          else
            (let max_idx_state = get_max_index b (Suc start)
             in if status max_idx_state = PARSER_OK
                then res0\<lparr>status := PARSER_OK, res_int := res_int max_idx_state, parse_end := pe\<rparr>
                else if status max_idx_state = PARSER_ERR
                then res0\<lparr>status := PARSER_ERR, parse_end := pe\<rparr>
                else res0\<lparr>status := PARSER_OK, parse_end := pe\<rparr>))"

lemma get_name_measure:
  assumes "(name_state, field_name) = get_name b (Suc st)" and "status name_state = PARSER_OK"
  shows "length b - parse_end name_state < length b - st"
proof -
  from assms have ok: "status (fst (get_name b (Suc st))) = PARSER_OK"
    and pe: "parse_end name_state = parse_end (fst (get_name b (Suc st)))"
    by (simp_all add: prod_eq_iff)
  from get_name_bounds [OF ok] pe show ?thesis by arith
qed

text \<open>The loop of \<^verbatim>\<open>find_field\<close>; \<open>st\<close> is the opening brace or the comma before the
  field under inspection.\<close>

function find_field_loop :: "string \<Rightarrow> string \<Rightarrow> nat \<Rightarrow> parser_res" where
  "find_field_loop b name st =
     (if char_at b st = CHR ''}'' then res0\<lparr>status := PARSER_NOT_FOUND\<rparr>
      else
        (case get_name b (Suc st) of
           (name_state, field_name) \<Rightarrow>
             if status name_state = PARSER_OK then
               (if field_name = name then res0\<lparr>status := PARSER_OK, res_str := Suc st\<rparr>
                else find_field_loop b name (parse_end name_state))
             else res0\<lparr>status := PARSER_ERR\<rparr>))"
  by pat_completeness auto
termination
  by (relation "measure (\<lambda>(b, name, st). length b - st)") (auto intro: get_name_measure)

declare find_field_loop.simps [simp del]

definition find_field :: "string \<Rightarrow> nat \<Rightarrow> string \<Rightarrow> parser_res" where
  "find_field b start name = find_field_loop b name start"

text \<open>The loop of \<^verbatim>\<open>parse_extended_dynamic_array\<close> that counts the fields.  After
  \<^verbatim>\<open>check_braces\<close> it ends at the closing brace; \<open>None\<close> otherwise, when \<open>del\<close> has
  left the buffer.\<close>

function count_fields_loop :: "string \<Rightarrow> nat \<Rightarrow> int \<Rightarrow> int option" where
  "count_fields_loop b del cnt =
     (if char_at b del = CHR ''}'' then Some cnt
      else if length b \<le> del then None
      else count_fields_loop b (res_str (find_same_level_symbol b (Suc del) CHR '','')) (cnt + 1))"
  by pat_completeness auto
termination
proof (relation "measure (\<lambda>(b, del, cnt). length b - del)", simp, goal_cases)
  case (1 b del cnt)
  with find_same_level_symbol_ge [of "Suc del" b "CHR '',''"] show ?case by simp
qed

declare count_fields_loop.simps [simp del]

subsection \<open>Parsing into memory\<close>

text \<open>
  The state of a parse: the heap and the scratch buffer.  The functions that descend into
  an element take \<^verbatim>\<open>parse_composite_impl\<close> as the argument \<open>rec\<close>, and the budget
  \<open>n\<close> bounds the iterations of their loops; \<open>None\<close> means that the budget ran out.
  The messages (\<^verbatim>\<open>hintmsg\<close>, \<^verbatim>\<open>ereport(WARNING, ...)\<close>) and the \<^verbatim>\<open>flags\<close> that are
  only handed on to the host parsers are left out, and so are the temporary copies of
  names, which the heap of the model does not hold.
\<close>

record pstate =
  mem :: heap
  scheme :: string

definition set_char :: "pstate \<Rightarrow> nat \<Rightarrow> char \<Rightarrow> pstate" where
  "set_char st i c = st\<lparr>scheme := (scheme st)[i := c]\<rparr>"

definition set_ub :: "pstate \<Rightarrow> pstate" where
  "set_ub st = st\<lparr>mem := (mem st)\<lparr>ub := True\<rparr>\<rparr>"

text \<open>A value computed in \<^verbatim>\<open>int\<close>: outside the range of \<^verbatim>\<open>int\<close> the computation has
  overflowed.\<close>

definition check_int :: "int \<Rightarrow> heap \<Rightarrow> heap" where
  "check_int x h = (if - INT_MAX - 1 \<le> x \<and> x \<le> INT_MAX then h else h\<lparr>ub := True\<rparr>)"

definition err_res :: parser_res where
  "err_res = res0\<lparr>status := PARSER_ERR\<rparr>"

text \<open>The host parsers set their output parameter on every path, to zero when they
  fail.\<close>

definition parse_atomic_type ::
  "externals \<Rightarrow> nat \<Rightarrow> string \<Rightarrow> ptr \<Rightarrow> pstate \<Rightarrow> parser_res \<times> pstate" where
  "parse_atomic_type E strval struct_type result st =
     (let s = c_string (scheme st) strval;
          prepared_strval = (if char_at (scheme st) strval = CHR 0x27
                             then DeescapeQuotedString E s else s);
          r = res0\<lparr>parse_end := strval + length s - 1\<rparr>;
          h = mem st
      in if struct_type = ''bool'' then
           (case parse_bool E prepared_strval of
              Some v \<Rightarrow> (r, st\<lparr>mem := store h result 1 (CBool v)\<rparr>)
            | None \<Rightarrow> (r\<lparr>status := PARSER_ERR\<rparr>, st\<lparr>mem := store h result 1 (CBool False)\<rparr>))
         else if struct_type = ''int'' then
           (case parse_int E prepared_strval of
              Some v \<Rightarrow> (r, st\<lparr>mem := store h result 4 (CInt v)\<rparr>)
            | None \<Rightarrow> (r\<lparr>status := PARSER_ERR\<rparr>, st\<lparr>mem := store h result 4 (CInt 0)\<rparr>))
         else if struct_type = ''real'' then
           (case parse_real E prepared_strval of
              Some v \<Rightarrow> (r, st\<lparr>mem := store h result 8 (CReal v)\<rparr>)
            | None \<Rightarrow> (r\<lparr>status := PARSER_ERR\<rparr>, st\<lparr>mem := store h result 8 (CReal 0)\<rparr>))
         else if struct_type = ''string'' then
           (if prepared_strval = ''nil'' then (r, st\<lparr>mem := store_ptr h result Null\<rparr>)
            else (case guc_strdup h prepared_strval of
                    (p, h1) \<Rightarrow> (r, st\<lparr>mem := store_ptr h1 result p\<rparr>)))
         else (r\<lparr>status := PARSER_ERR\<rparr>, st))"

type_synonym parse_rec = "nat \<Rightarrow> string \<Rightarrow> ptr \<Rightarrow> pstate \<Rightarrow> (parser_res \<times> pstate) option"

text \<open>\<^verbatim>\<open>get_index\<close> returns \<^verbatim>\<open>PARSER_OK\<close>, \<^verbatim>\<open>PARSER_NOT_FOUND\<close> or \<^verbatim>\<open>PARSER_ERR\<close>
  (lemma \<open>get_index_status\<close>).\<close>

definition parse_array_element ::
  "parse_rec \<Rightarrow> registry \<Rightarrow> nat \<Rightarrow> string \<Rightarrow> ptr \<Rightarrow> int \<Rightarrow> pstate
   \<Rightarrow> (parser_res \<times> pstate) option" where
  "parse_array_element rec G strval array_type res_arr prev_index st =
     (case get_array_basic_type array_type of
        None \<Rightarrow> Some (err_res, st)
      | Some basic_type \<Rightarrow>
          (let index_state = get_index (scheme st) strval
           in if status index_state = PARSER_ERR then Some (err_res, st)
              else
                (let next_colon_found = (status index_state = PARSER_OK);
                     index = (if next_colon_found then res_int index_state else prev_index + 1);
                     next_del = parse_end index_state;
                     next_colon = res_str (find_same_level_symbol (scheme st) strval CHR '':'');
                     delimiter_ph = char_at (scheme st) next_del;
                     del_ptr = back_over_space (scheme st) next_del;
                     st1 = set_char st del_ptr NUL;
                     c = skip_space (scheme st1) (if next_colon_found then Suc next_colon else strval);
                     result_ptr = ptr_add res_arr (get_element_offset_with_index G array_type index)
                 in case rec c basic_type result_ptr st1 of
                      None \<Rightarrow> None
                    | Some (element_res, st2) \<Rightarrow>
                        (let st3 = set_char st2 next_del delimiter_ph
                         in if status element_res = PARSER_ERR
                            then Some (err_res\<lparr>parse_end := next_del\<rparr>, st3)
                            else Some (res0\<lparr>parse_end := next_del\<rparr>, st3)))))"

definition parse_struct_element ::
  "parse_rec \<Rightarrow> registry \<Rightarrow> nat \<Rightarrow> string \<Rightarrow> ptr \<Rightarrow> pstate \<Rightarrow> (parser_res \<times> pstate) option" where
  "parse_struct_element rec G strval struct_type res_struct st =
     (case get_name (scheme st) strval of
        (name_state, name) \<Rightarrow>
          if status name_state \<noteq> PARSER_OK then Some (err_res, st)
          else
            (let next_del = parse_end name_state;
                 offset = get_field_offset G struct_type name;
                 field_type = get_field_type_name G struct_type name;
                 st0 = (if reads_unwritten_slot G struct_type name then set_ub st else st)
             in case field_type of
                  None \<Rightarrow> Some (err_res\<lparr>parse_end := next_del\<rparr>, st0)
                | Some ft \<Rightarrow>
                    if offset < 0 then Some (err_res\<lparr>parse_end := next_del\<rparr>, st0)
                    else
                      (let next_colon = res_str (find_same_level_symbol (scheme st0) strval CHR '':'');
                           delimiter_ph = char_at (scheme st0) next_del;
                           del_ptr = back_over_space (scheme st0) next_del;
                           st1 = set_char st0 del_ptr NUL;
                           c = skip_space (scheme st1) (Suc next_colon);
                           result_ptr = ptr_add res_struct offset
                       in case rec c ft result_ptr st1 of
                            None \<Rightarrow> None
                          | Some (element_res, st2) \<Rightarrow>
                              (let st3 = set_char st2 next_del delimiter_ph
                               in if status element_res = PARSER_ERR
                                  then Some (err_res\<lparr>parse_end := next_del\<rparr>, st3)
                                  else Some (res0\<lparr>parse_end := next_del\<rparr>, st3)))))"

text \<open>The loops of \<^verbatim>\<open>parse_prepared_array\<close> and \<^verbatim>\<open>parse_structure\<close>:
  \<^verbatim>\<open>while (*(c - 1) != closing) { ... }\<close> with the element counter \<open>i\<close>; the body
  \<open>elem\<close> parses the element at \<open>c\<close>.\<close>

fun element_loop ::
  "nat \<Rightarrow> char \<Rightarrow> (nat \<Rightarrow> int \<Rightarrow> pstate \<Rightarrow> (parser_res \<times> pstate) option) \<Rightarrow> nat \<Rightarrow> int \<Rightarrow> pstate
   \<Rightarrow> (parser_res \<times> pstate) option" where
  "element_loop 0 closing elem c i st = None"
| "element_loop (Suc k) closing elem c i st =
     (if char_at (scheme st) (c - 1) = closing
      then Some (res0\<lparr>parse_end := c - 1\<rparr>, st)
      else
        (case elem c i st of
           None \<Rightarrow> None
         | Some (element_res, st1) \<Rightarrow>
             if status element_res = PARSER_OK
             then element_loop k closing elem (Suc (parse_end element_res)) (i + 1) st1
             else if status element_res = PARSER_ERR then Some (err_res, st1)
             else element_loop k closing elem c (i + 1) st1))"

definition parse_prepared_array ::
  "nat \<Rightarrow> parse_rec \<Rightarrow> registry \<Rightarrow> nat \<Rightarrow> string \<Rightarrow> ptr \<Rightarrow> pstate
   \<Rightarrow> (parser_res \<times> pstate) option" where
  "parse_prepared_array n rec G start array_type res_arr st =
     element_loop n CHR '']''
       (\<lambda>c i. parse_array_element rec G c array_type res_arr (i - 1)) (Suc start) 0 st"

definition parse_static_array ::
  "nat \<Rightarrow> parse_rec \<Rightarrow> registry \<Rightarrow> nat \<Rightarrow> string \<Rightarrow> ptr \<Rightarrow> pstate
   \<Rightarrow> (parser_res \<times> pstate) option" where
  "parse_static_array n rec G strval array_type res_arr st =
     (let arr_size = get_static_array_size array_type
      in if arr_size < 0 then Some (err_res, st)
         else
           (let check_res = check_array_syntax (scheme st) strval
            in if status check_res = PARSER_OK \<and> arr_size < res_int check_res
               then Some (err_res\<lparr>parse_end := parse_end check_res\<rparr>, st)
               else if status check_res = PARSER_ERR then Some (err_res, st)
               else parse_prepared_array n rec G strval array_type res_arr st))"

text \<open>The lines that both array parsers repeat under the comment ``replace old
  snapshot'': free the old buffer, store the new one and the new length.\<close>

definition replace_snapshot :: "heap \<Rightarrow> ptr \<Rightarrow> ptr \<Rightarrow> ptr \<Rightarrow> int \<Rightarrow> heap" where
  "replace_snapshot h res_arr old_data new_data arr_len =
     store (store_ptr (guc_free h old_data) res_arr new_data)
       (dynamic_array_size_ptr res_arr) 4 (CInt arr_len)"

definition parse_dynamic_array ::
  "nat \<Rightarrow> parse_rec \<Rightarrow> registry \<Rightarrow> nat \<Rightarrow> string \<Rightarrow> ptr \<Rightarrow> pstate
   \<Rightarrow> (parser_res \<times> pstate) option" where
  "parse_dynamic_array n rec G strval array_type res_arr st =
     (case rd_int (mem st) (dynamic_array_size_ptr res_arr) of
        (last_arr_len, h0) \<Rightarrow>
          (let last_arr_mem_size = get_dynamic_array_mem_size_with_length G array_type last_arr_len
           in if last_arr_mem_size < 0 then Some (err_res, st\<lparr>mem := h0\<rparr>)
              else
                (let check_res = check_array_syntax (scheme st) strval
                 in if status check_res = PARSER_ERR then Some (err_res, st\<lparr>mem := h0\<rparr>)
                    else
                      (let max_idx = (if status check_res = PARSER_OK then res_int check_res else 0);
                           arr_len = (if last_arr_len < max_idx + 1 then max_idx + 1 else last_arr_len);
                           new_data_mem_size = get_dynamic_array_mem_size_with_length G array_type arr_len
                       in case guc_malloc (check_int new_data_mem_size (check_int (max_idx + 1) h0))
                                 new_data_mem_size of
                            (new_data, h1) \<Rightarrow>
                              (case rd_ptr h1 res_arr of
                                 (old_data, h2) \<Rightarrow>
                                   (let h3 = (if last_arr_mem_size \<noteq> 0
                                              then memcpy h2 new_data old_data last_arr_mem_size
                                              else h2);
                                        h4 = memset_zero h3 (ptr_add new_data last_arr_mem_size)
                                               (new_data_mem_size - last_arr_mem_size);
                                        h5 = replace_snapshot h4 res_arr old_data new_data arr_len
                                    in parse_prepared_array n rec G strval array_type new_data
                                         (st\<lparr>mem := h5\<rparr>)))))))"

text \<open>The lines that \<^verbatim>\<open>parse_extended_dynamic_array\<close> has twice, for a literal with and
  without the field \<^verbatim>\<open>data\<close>: allocate the new buffer, copy the old elements, clear the
  added ones if the old buffer was not empty and is smaller, and replace the old
  snapshot.\<close>

definition resize_extended :: "registry \<Rightarrow> string \<Rightarrow> ptr \<Rightarrow> int \<Rightarrow> int \<Rightarrow> heap \<Rightarrow> ptr \<times> heap" where
  "resize_extended G array_type res_arr last_arr_mem_size arr_len h =
     (let new_data_mem_size = get_dynamic_array_mem_size_with_length G array_type arr_len
      in case guc_malloc (check_int new_data_mem_size h) new_data_mem_size of
           (new_data, h1) \<Rightarrow>
             (case rd_ptr h1 res_arr of
                (old_data, h2) \<Rightarrow>
                  (let h3 = (if last_arr_mem_size \<noteq> 0 \<and> last_arr_mem_size < new_data_mem_size
                             then memset_zero (memcpy h2 new_data old_data last_arr_mem_size)
                                    (ptr_add new_data last_arr_mem_size)
                                    (new_data_mem_size - last_arr_mem_size)
                             else if last_arr_mem_size \<noteq> 0
                             then memcpy h2 new_data old_data new_data_mem_size
                             else h2)
                   in (new_data, replace_snapshot h3 res_arr old_data new_data arr_len))))"

text \<open>The automatic variable \<^verbatim>\<open>struct DynArrTmp dyn_array = {NULL, -1}\<close> is a block of
  its own, dead once its scope is left.\<close>

definition alloc_DynArrTmp :: "heap \<Rightarrow> ptr \<times> heap" where
  "alloc_DynArrTmp h =
     (Ptr (length (blocks h)) 0,
      h\<lparr>blocks := blocks h @ [\<lparr>alive = True, bsize = sizeof_ptr * 2,
           payload = Cells ((\<lambda>_. Zero)(sizeof_ptr := CInt (- 1)))\<rparr>]\<rparr>)"

text \<open>\<^verbatim>\<open>parse_extended_dynamic_array\<close>, first part: the field \<^verbatim>\<open>size\<close>.  The inner
  result is the new \<^verbatim>\<open>arr_len\<close> (\<open>-1\<close>: not determined), or \<open>None\<close> for the jumps to
  \<^verbatim>\<open>process_err\<close> and \<^verbatim>\<open>process_excess_fields\<close>.\<close>

definition parse_size_field ::
  "parse_rec \<Rightarrow> registry \<Rightarrow> nat \<Rightarrow> string \<Rightarrow> int \<Rightarrow> pstate \<Rightarrow> (int option \<times> pstate) option" where
  "parse_size_field rec G strval array_type cnt st =
     (let search_res = find_field (scheme st) strval ''size''
      in if status search_res = PARSER_OK then
           (case alloc_DynArrTmp (mem st) of
              (dyn_array, h1) \<Rightarrow>
                (case parse_struct_element rec G (res_str search_res) array_type dyn_array
                        (st\<lparr>mem := h1\<rparr>) of
                   None \<Rightarrow> None
                 | Some (element_res, st2) \<Rightarrow>
                     (case rd_int (mem st2) (dynamic_array_size_ptr dyn_array) of
                        (sz, h3) \<Rightarrow>
                          (let h4 = guc_free (if status element_res = PARSER_OK then h3 else mem st2)
                                      dyn_array
                           in if status element_res = PARSER_OK then Some (Some sz, st2\<lparr>mem := h4\<rparr>)
                              else if status element_res = PARSER_ERR then Some (None, st2\<lparr>mem := h4\<rparr>)
                              else Some (Some (- 1), st2\<lparr>mem := h4\<rparr>)))))
         else if status search_res = PARSER_NOT_FOUND \<and> 1 < cnt then Some (None, st)
         else if status search_res = PARSER_ERR then Some (None, st)
         else Some (Some (- 1), st))"

text \<open>Second part: the field \<^verbatim>\<open>data\<close>, or the resize when there is none.
  \<open>parse_end0\<close> is the closing brace that \<^verbatim>\<open>check_braces\<close> found.\<close>

definition parse_data_field ::
  "nat \<Rightarrow> parse_rec \<Rightarrow> registry \<Rightarrow> nat \<Rightarrow> string \<Rightarrow> ptr \<Rightarrow> int \<Rightarrow> int \<Rightarrow> int \<Rightarrow> int \<Rightarrow> nat
   \<Rightarrow> pstate \<Rightarrow> (parser_res \<times> pstate) option" where
  "parse_data_field n rec G strval array_type res_arr cnt last_arr_len last_arr_mem_size
     arr_len parse_end0 st =
     (let search_res = find_field (scheme st) strval ''data''
      in if status search_res = PARSER_NOT_FOUND then
           (if 1 < cnt then Some (err_res\<lparr>parse_end := parse_end0\<rparr>, st)
            else if arr_len < 0 then Some (err_res\<lparr>parse_end := parse_end0\<rparr>, st)
            else (case resize_extended G array_type res_arr last_arr_mem_size arr_len (mem st) of
                    (new_data, h1) \<Rightarrow> Some (res0\<lparr>parse_end := parse_end0\<rparr>, st\<lparr>mem := h1\<rparr>)))
         else if status search_res \<noteq> PARSER_OK then Some (err_res\<lparr>parse_end := parse_end0\<rparr>, st)
         else
           (let data_st = res_str search_res;
                c = skip_space (scheme st)
                      (Suc (res_str (find_same_level_symbol (scheme st) data_st CHR '':'')));
                check_res = check_array_syntax (scheme st) c
            in if status check_res = PARSER_ERR then Some (err_res\<lparr>parse_end := parse_end0\<rparr>, st)
               else
                 (let max_idx = (if status check_res = PARSER_OK then res_int check_res else 0)
                  in if arr_len \<noteq> - 1 \<and> arr_len \<le> max_idx
                     then Some (err_res\<lparr>parse_end := parse_end0\<rparr>, st)
                     else
                       (let arr_len' = (if arr_len = - 1
                                        then (if last_arr_len < max_idx + 1 then max_idx + 1
                                              else last_arr_len)
                                        else arr_len)
                        in case resize_extended G array_type res_arr last_arr_mem_size arr_len'
                                  (check_int (max_idx + 1) (mem st)) of
                             (new_data, h1) \<Rightarrow>
                               parse_prepared_array n rec G c array_type new_data
                                 (st\<lparr>mem := h1\<rparr>)))))"

definition parse_extended_dynamic_array ::
  "nat \<Rightarrow> parse_rec \<Rightarrow> registry \<Rightarrow> nat \<Rightarrow> string \<Rightarrow> ptr \<Rightarrow> pstate
   \<Rightarrow> (parser_res \<times> pstate) option" where
  "parse_extended_dynamic_array n rec G strval array_type res_arr st =
     (case rd_int (mem st) (dynamic_array_size_ptr res_arr) of
        (last_arr_len, h0) \<Rightarrow>
          (let st0 = st\<lparr>mem := h0\<rparr>;
               last_arr_mem_size = get_dynamic_array_mem_size_with_length G array_type last_arr_len
           in if last_arr_mem_size < 0 then Some (err_res, st0)
              else
                (case check_braces (scheme st0) strval CHR ''{'' CHR ''}'' of
                   None \<Rightarrow> Some (err_res, st0)
                 | Some parse_end0 \<Rightarrow>
                     if is_empty_array (scheme st0) strval parse_end0
                     then Some (err_res\<lparr>parse_end := parse_end0\<rparr>, st0)
                     else
                       (case count_fields_loop (scheme st0) strval 0 of
                          None \<Rightarrow> Some (err_res, set_ub st0)
                        | Some cnt \<Rightarrow>
                            if 2 < cnt then Some (err_res\<lparr>parse_end := parse_end0\<rparr>, st0)
                            else
                              (case parse_size_field rec G strval array_type cnt st0 of
                                 None \<Rightarrow> None
                               | Some (None, st1) \<Rightarrow> Some (err_res\<lparr>parse_end := parse_end0\<rparr>, st1)
                               | Some (Some arr_len, st1) \<Rightarrow>
                                   parse_data_field n rec G strval array_type res_arr cnt
                                     last_arr_len last_arr_mem_size arr_len parse_end0 st1)))))"

definition parse_structure ::
  "nat \<Rightarrow> parse_rec \<Rightarrow> externals \<Rightarrow> registry \<Rightarrow> nat \<Rightarrow> string \<Rightarrow> ptr \<Rightarrow> pstate
   \<Rightarrow> (parser_res \<times> pstate) option" where
  "parse_structure n rec E G strval struct_type res_struct st =
     (if is_atomic_type struct_type then Some (parse_atomic_type E strval struct_type res_struct st)
      else
        (case check_braces (scheme st) strval CHR ''{'' CHR ''}'' of
           None \<Rightarrow> Some (err_res, st)
         | Some pe \<Rightarrow>
             element_loop n CHR ''}''
               (\<lambda>c i. parse_struct_element rec G c struct_type res_struct) (Suc strval) 0 st))"

fun parse_composite_impl ::
  "nat \<Rightarrow> externals \<Rightarrow> registry \<Rightarrow> nat \<Rightarrow> string \<Rightarrow> ptr \<Rightarrow> pstate
   \<Rightarrow> (parser_res \<times> pstate) option" where
  "parse_composite_impl 0 E G v type result st = None"
| "parse_composite_impl (Suc n) E G v type result st =
     (if is_static_array_type type
      then parse_static_array n (parse_composite_impl n E G) G v type result st
      else if is_dynamic_array_type type
      then (if char_at (scheme st) v = CHR ''{''
            then parse_extended_dynamic_array n (parse_composite_impl n E G) G v type result st
            else parse_dynamic_array n (parse_composite_impl n E G) G v type result st)
      else parse_structure n (parse_composite_impl n E G) E G v type result st)"

subsection \<open>The entry point\<close>

text \<open>\<^verbatim>\<open>is_assignment_list\<close> reads \<^verbatim>\<open>value[strlen(value) - 1]\<close>, which for the empty
  string is the byte before it.\<close>

definition is_assignment_list :: "string \<Rightarrow> bool" where
  "is_assignment_list v = (v \<noteq> [] \<and> last v = CHR '';'')"

text \<open>The result of \<^verbatim>\<open>parse_composite\<close> and of \<^verbatim>\<open>parse_placeholder_patch_list\<close>: the
  returned \<^verbatim>\<open>bool\<close>, the pointer in \<^verbatim>\<open>*result\<close> afterwards (the argument \<open>result\<close>
  is what it held before) and the heap.\<close>

type_synonym composite_rec =
  "string \<Rightarrow> string \<Rightarrow> ptr \<Rightarrow> ptr \<Rightarrow> heap \<Rightarrow> (bool \<times> ptr \<times> heap) option"

text \<open>The loop of \<^verbatim>\<open>parse_placeholder_patch_list\<close> over the copy \<open>b\<close> of the text;
  \<open>rec\<close> stands for \<^verbatim>\<open>parse_composite\<close>.  The result carries \<^verbatim>\<open>last_value\<close>.\<close>

fun patch_loop ::
  "nat \<Rightarrow> composite_rec \<Rightarrow> string \<Rightarrow> string \<Rightarrow> nat \<Rightarrow> ptr \<Rightarrow> heap \<Rightarrow> (bool \<times> ptr \<times> heap) option" where
  "patch_loop 0 rec type b cur_patch last_value h = None"
| "patch_loop (Suc k) rec type b cur_patch last_value h =
     (if char_at b cur_patch = NUL then Some (True, last_value, h)
      else
        (let next_del = res_str (find_same_level_symbol b cur_patch CHR '';'');
             b1 = b[next_del := NUL]
         in case rec (c_string b1 cur_patch) type Null last_value h of
              None \<Rightarrow> None
            | Some (ok, next_value, h1) \<Rightarrow>
                if \<not> ok then Some (False, last_value, h1)
                else patch_loop k rec type b1 (Suc next_del) next_value (guc_free h1 last_value)))"

definition parse_placeholder_patch_list ::
  "nat \<Rightarrow> composite_rec \<Rightarrow> registry \<Rightarrow> string \<Rightarrow> string \<Rightarrow> ptr \<Rightarrow> ptr \<Rightarrow> heap
   \<Rightarrow> (bool \<times> ptr \<times> heap) option" where
  "parse_placeholder_patch_list n rec G v type result prev_val h =
     (case guc_strdup h v of
        (strval, h1) \<Rightarrow>
          (case struct_dup n G prev_val type h1 of
             None \<Rightarrow> None
           | Some (last_value, h2) \<Rightarrow>
               (case patch_loop n rec type (v @ [NUL]) 0 last_value h2 of
                  None \<Rightarrow> None
                | Some (ok, last_value', h3) \<Rightarrow> Some (ok, last_value', guc_free h3 strval))))"

fun parse_composite ::
  "nat \<Rightarrow> externals \<Rightarrow> registry \<Rightarrow> string \<Rightarrow> string \<Rightarrow> ptr \<Rightarrow> ptr \<Rightarrow> heap
   \<Rightarrow> (bool \<times> ptr \<times> heap) option" where
  "parse_composite 0 E G v type result prev_val h = None"
| "parse_composite (Suc n) E G v type result prev_val h =
     (if is_assignment_list v
      then parse_placeholder_patch_list n (parse_composite n E G) G v type result prev_val h
      else
        (let size = get_type_size G (Some type)
         in case guc_strdup (if v = [] then h\<lparr>ub := True\<rparr> else h) v of
              (scheme_p, h1) \<Rightarrow>
                (case guc_malloc h1 size of
                   (val, h2) \<Rightarrow>
                     (case (if prev_val \<noteq> Null then struct_dup_impl n G val prev_val type h2
                            else Some (memset_zero h2 val size)) of
                        None \<Rightarrow> None
                      | Some h3 \<Rightarrow>
                          (case parse_composite_impl n E G 0 type val
                                  \<lparr>mem = h3, scheme = v @ [NUL]\<rparr> of
                             None \<Rightarrow> None
                           | Some (parser_result, st) \<Rightarrow>
                               if status parser_result = PARSER_OK
                               then Some (True, val, guc_free (mem st) scheme_p)
                               else if status parser_result = PARSER_ERR
                               then Some (False, Null, guc_free (guc_free (mem st) val) scheme_p)
                               else Some (True, result, guc_free (mem st) scheme_p))))))"

section \<open>A host and example types\<close>

text \<open>
  Modelled from the spec: the host functions.  The spec assumes the parsers of atomic
  values and the quote escaping as provided (they live in the settings subsystem, outside
  the sources at hand) and fixes only that a doubled quote inside a quoted string stands
  for one quote, that \<^verbatim>\<open>nil\<close> is the null string, and that the test scenarios use a
  small expand threshold such as 3.  The models below accept the plain forms: decimal
  integers with an optional sign, the usual words for booleans, decimal fractions.
\<close>

fun deescape :: "string \<Rightarrow> string" where
  "deescape [] = []"
| "deescape [c] = [c]"
| "deescape (a # b # r) =
     (if a = CHR 0x5C then b # deescape r
      else if a = CHR 0x27 \<and> b = CHR 0x27 then CHR 0x27 # deescape r
      else a # deescape (b # r))"

text \<open>The leading quote is skipped, the text copied, and the last character copied (the
  closing quote) is cut off.\<close>

definition host_DeescapeQuotedString :: "string \<Rightarrow> string" where
  "host_DeescapeQuotedString s = butlast (deescape (tl s))"

fun host_escape_single_quotes_ascii :: "string \<Rightarrow> string" where
  "host_escape_single_quotes_ascii [] = []"
| "host_escape_single_quotes_ascii (c # cs) =
     (if c = CHR 0x27 \<or> c = CHR 0x5C then c # c # host_escape_single_quotes_ascii cs
      else c # host_escape_single_quotes_ascii cs)"

definition host_parse_bool :: "string \<Rightarrow> bool option" where
  "host_parse_bool s =
     (if s = ''true'' \<or> s = ''on'' \<or> s = ''yes'' \<or> s = ''1'' then Some True
      else if s = ''false'' \<or> s = ''off'' \<or> s = ''no'' \<or> s = ''0'' then Some False
      else None)"

text \<open>An optional sign and digits, white space around them allowed.\<close>

definition signed_digits :: "string \<Rightarrow> (bool \<times> string \<times> string) option" where
  "signed_digits s =
     (let t = dropWhile isspace s;
          neg = (t \<noteq> [] \<and> hd t = CHR ''-'');
          u = (if t \<noteq> [] \<and> (hd t = CHR ''-'' \<or> hd t = CHR ''+'') then tl t else t)
      in if takeWhile isdigit u = [] then None
         else Some (neg, takeWhile isdigit u, dropWhile isdigit u))"

definition host_parse_int :: "string \<Rightarrow> int option" where
  "host_parse_int s =
     (case signed_digits s of
        None \<Rightarrow> None
      | Some (neg, ds, rest) \<Rightarrow>
          (let v = (if neg then - digits_val ds 0 else digits_val ds 0)
           in if dropWhile isspace rest = [] \<and> - INT_MAX - 1 \<le> v \<and> v \<le> INT_MAX
              then Some v else None))"

definition host_parse_real :: "string \<Rightarrow> real option" where
  "host_parse_real s =
     (case signed_digits s of
        None \<Rightarrow> None
      | Some (neg, ds, rest) \<Rightarrow>
          (let fs = (if rest \<noteq> [] \<and> hd rest = CHR ''.'' then takeWhile isdigit (tl rest) else []);
               tail = (if rest \<noteq> [] \<and> hd rest = CHR ''.'' then dropWhile isdigit (tl rest) else rest);
               v = real_of_int (digits_val ds 0) + real_of_int (digits_val fs 0) / 10 ^ length fs
           in if dropWhile isspace tail = [] then Some (if neg then - v else v) else None))"

text \<open>\<^verbatim>\<open>sprintf("%lf")\<close>: six digits after the point.\<close>

definition host_print_real :: "real \<Rightarrow> string" where
  "host_print_real r =
     (let n = nat \<lfloor>\<bar>r\<bar> * 1000000 + 1 / 2\<rfloor>;
          fp = show_nat (n mod 1000000)
      in (if r < 0 then ''-'' else []) @ show_nat (n div 1000000) @ ''.''
         @ replicate (6 - length fp) CHR ''0'' @ fp)"

definition host :: externals where
  "host = \<lparr>DeescapeQuotedString = host_DeescapeQuotedString,
           escape_single_quotes_ascii = host_escape_single_quotes_ascii,
           parse_bool = host_parse_bool,
           parse_int = host_parse_int,
           parse_real = host_parse_real,
           print_real = host_print_real,
           expand_array_view_thd = 3\<rparr>"

text \<open>A record with a fixed array followed by another field, and a record with a
  variable array of strings, as registration computes them.\<close>

definition pair_type :: type_definition where
  "pair_type = \<lparr>td_type = ''pair'', signature = ''int[2] a; int b'',
     cnt_fields = 2,
     td_fields = [\<lparr>f_type = ''int[2]'', f_name = ''a''\<rparr>,
                  \<lparr>f_type = ''int'', f_name = ''b''\<rparr>],
     type_size = 12, offset = 4\<rparr>"

definition group_type :: type_definition where
  "group_type = \<lparr>td_type = ''group'', signature = ''string name; string[] tags'',
     cnt_fields = 2,
     td_fields = [\<lparr>f_type = ''string'', f_name = ''name''\<rparr>,
                  \<lparr>f_type = ''string[]'', f_name = ''tags''\<rparr>],
     type_size = 24, offset = 8\<rparr>"

definition bag_type :: type_definition where
  "bag_type = \<lparr>td_type = ''bag'', signature = ''int[] xs'',
     cnt_fields = 1,
     td_fields = [\<lparr>f_type = ''int[]'', f_name = ''xs''\<rparr>],
     type_size = 16, offset = 8\<rparr>"

text \<open>The type \<^verbatim>\<open>cluster\<close> of the spec's scenarios.\<close>

definition cluster_type :: type_definition where
  "cluster_type = \<lparr>td_type = ''cluster'', signature = ''string name; int size; node[10] nodes'',
     cnt_fields = 3,
     td_fields = [\<lparr>f_type = ''string'', f_name = ''name''\<rparr>,
                  \<lparr>f_type = ''int'', f_name = ''size''\<rparr>,
                  \<lparr>f_type = ''node[10]'', f_name = ''nodes''\<rparr>],
     type_size = 256, offset = 8\<rparr>"

definition example_types :: registry where
  "example_types =
     builtin_types(''node'' \<mapsto> node_type, ''cluster'' \<mapsto> cluster_type,
                   ''pair'' \<mapsto> pair_type, ''group'' \<mapsto> group_type, ''bag'' \<mapsto> bag_type)"

definition empty_heap :: heap where
  "empty_heap = \<lparr>blocks = [], ub = False\<rparr>"

section \<open>The memory that a call leaves alone\<close>

text \<open>
  A call of the parser starts in a heap \<open>h0\<close>, which holds the previous value and
  whatever else the caller owns.  Blocks are never reused, so the blocks of \<open>h0\<close> are the
  first blocks of every later heap, and a pointer into a later block is a pointer to memory
  that the call itself has allocated.
\<close>

definition newer :: "heap \<Rightarrow> ptr \<Rightarrow> bool" where
  "newer h0 p = (case p of Null \<Rightarrow> True | Ptr b off \<Rightarrow> length (blocks h0) \<le> b)"

text \<open>The blocks of \<open>h0\<close> are in \<open>h\<close> as they were.\<close>

definition kept :: "heap \<Rightarrow> heap \<Rightarrow> bool" where
  "kept h0 h = (take (length (blocks h0)) (blocks h) = blocks h0)"

text \<open>No pointer into a block of \<open>h0\<close> is stored in a later block.\<close>

definition closed :: "heap \<Rightarrow> heap \<Rightarrow> bool" where
  "closed h0 h =
     (\<forall>b f off q. length (blocks h0) \<le> b \<and> b < length (blocks h)
        \<and> payload (blocks h ! b) = Cells f \<and> f off = CPtr q \<longrightarrow> newer h0 q)"

definition frame_inv :: "heap \<Rightarrow> heap \<Rightarrow> bool" where
  "frame_inv h0 h = (kept h0 h \<and> closed h0 h)"

definition keeps :: "heap \<Rightarrow> parse_rec \<Rightarrow> bool" where
  "keeps h0 rec =
     (\<forall>c t p st r st'. frame_inv h0 (mem st) \<and> newer h0 p \<and> rec c t p st = Some (r, st')
        \<longrightarrow> frame_inv h0 (mem st'))"

definition keeps_composite :: "heap \<Rightarrow> composite_rec \<Rightarrow> bool" where
  "keeps_composite h0 rec =
     (\<forall>v t res prev h ok r h'. frame_inv h0 h \<and> newer h0 prev \<and> rec v t res prev h = Some (ok, r, h')
        \<longrightarrow> frame_inv h0 h' \<and> (r = res \<or> newer h0 r))"

subsection \<open>A previous value of its type\<close>

text \<open>
  \<^verbatim>\<open>struct_duplicate\<close> copies a \<^verbatim>\<open>bool\<close>, an \<^verbatim>\<open>int\<close> or a \<^verbatim>\<open>real\<close> with \<^verbatim>\<open>memcpy\<close>.
  In a value of its type these slots hold no pointer.  \<open>holds_pointer h p n\<close>: a pointer
  is stored at one of the \<open>n\<close> bytes from \<open>p\<close> on.
\<close>

definition holds_pointer :: "heap \<Rightarrow> ptr \<Rightarrow> int \<Rightarrow> bool" where
  "holds_pointer h p n =
     (case p of
        Null \<Rightarrow> False
      | Ptr b off \<Rightarrow>
          b < length (blocks h)
          \<and> (case payload (blocks h ! b) of
                Cells g \<Rightarrow> list_ex (\<lambda>k. case g (off + k) of CPtr q \<Rightarrow> True | _ \<Rightarrow> False) [0 .. n - 1]
              | Text s \<Rightarrow> False))"

text \<open>The scalar slots that \<^verbatim>\<open>struct_dup_impl\<close> visits in the value at \<open>p\<close>, down to
  the depth \<open>n\<close>, hold no pointer.\<close>

fun plain_scalars :: "nat \<Rightarrow> registry \<Rightarrow> heap \<Rightarrow> ptr \<Rightarrow> string \<Rightarrow> bool" where
  "plain_scalars 0 G h p type = True"
| "plain_scalars (Suc n) G h p type =
     (if is_static_array_type type then
        (case get_array_basic_type type of
           None \<Rightarrow> True
         | Some bt \<Rightarrow>
             list_all
               (\<lambda>i. plain_scalars n G h (ptr_add p (get_element_offset_with_index G type (int i))) bt)
               [0 ..< nat (get_static_array_size type)])
      else if is_dynamic_array_type type then
        (case get_array_basic_type type of
           None \<Rightarrow> True
         | Some bt \<Rightarrow>
             (case read_int h (dynamic_array_size_ptr p) of
                None \<Rightarrow> True
              | Some sz \<Rightarrow>
                  (case read_ptr h p of
                     None \<Rightarrow> True
                   | Some d \<Rightarrow>
                       list_all
                         (\<lambda>i. plain_scalars n G h
                                 (ptr_add d (get_element_offset_with_index G type (int i))) bt)
                         [0 ..< nat sz])))
      else
        (case get_type_definition G type of
           None \<Rightarrow> True
         | Some d \<Rightarrow>
             if cnt_fields d = 0
             then type = ''string'' \<or> \<not> holds_pointer h p (type_size d)
             else list_all
                    (\<lambda>i. case field_slot d i of
                            None \<Rightarrow> True
                          | Some f \<Rightarrow>
                              plain_scalars n G h (ptr_add p (get_field_offset G type (f_name f)))
                                (f_type f))
                    [0 ..< nat (cnt_fields d)]))"

text \<open>A record in which a \<^verbatim>\<open>real\<close> field has the name of the variable array before it, as
  registration computes it: both are found at the offset of the first.\<close>

definition alias_type :: type_definition where
  "alias_type = \<lparr>td_type = ''alias'', signature = ''int[] a; real a'',
     cnt_fields = 2,
     td_fields = [\<lparr>f_type = ''int[]'', f_name = ''a''\<rparr>,
                  \<lparr>f_type = ''real'', f_name = ''a''\<rparr>],
     type_size = 24, offset = 8\<rparr>"

definition alias_types :: registry where
  "alias_types = builtin_types(''alias'' \<mapsto> alias_type)"

section \<open>The layout law\<close>









lemma field_offsets_length [simp]: "length (field_offsets G fs tot) = length fs"
  by (induction fs arbitrary: tot) (simp_all add: Let_def)
























section \<open>Runs of the code on concrete values\<close>

text \<open>The example types are what registration computes for their signatures.\<close>

lemma example_types_register:
  "init_type_definition (builtin_types(''node'' \<mapsto> node_type))
     (new_type ''cluster'' ''string name; int size; node[10] nodes'') = Inr cluster_type"
  "init_type_definition builtin_types (new_type ''pair'' ''int[2] a; int b'') = Inr pair_type"
  "init_type_definition builtin_types (new_type ''group'' ''string name; string[] tags'')
     = Inr group_type"
  "init_type_definition builtin_types (new_type ''bag'' ''int[] xs'') = Inr bag_type"
  by code_simp+

text \<open>
  Claim C1 (round trip through the wire form).  The value that the parser builds for the
  literal \<^verbatim>\<open>{name: 'g'}\<close> of the type \<^verbatim>\<open>group\<close> (\<^verbatim>\<open>string name; string[] tags\<close>) has
  an empty variable array \<^verbatim>\<open>tags\<close>.  Its wire-mode serialization has no defined result:
  with no elements \<^verbatim>\<open>dynamic_array_to_str\<close> reads \<^verbatim>\<open>parts[-1]\<close>.  So there is no text to
  parse back for this value.
\<close>

theorem serialize_empty_variable_array_undefined:
  "(case parse_composite 10 host example_types ''{name: 'g'}'' ''group'' Null Null empty_heap of
      None \<Rightarrow> False
    | Some (ok, p, h) \<Rightarrow>
        ok \<and> \<not> ub h
        \<and> read_int h (dynamic_array_size_ptr (ptr_add p (get_field_offset example_types ''group'' ''tags'')))
            = Some 0
        \<and> struct_to_str 10 host example_types h p ''group'' True = Undef)"
  by code_simp

text \<open>
  Claim C2 (a fixed array rejects an index of \<open>N\<close> or more).  For the type \<^verbatim>\<open>pair\<close>
  (\<^verbatim>\<open>int[2] a; int b\<close>) the literal \<^verbatim>\<open>{a: [2: 7]}\<close> is accepted, although its index is
  the length of the array: the parse succeeds and the element lands on the field \<^verbatim>\<open>b\<close>
  behind the array, which then holds 7.  The literal of the claim,
  \<^verbatim>\<open>{nodes: [10: {port: 1}]}\<close> for \<^verbatim>\<open>cluster\<close>, is accepted as well; its element lies
  behind the end of the allocated value, so the run writes outside the block.
\<close>

theorem static_array_accepts_index_N:
  "(case parse_composite 10 host example_types ''{a: [2: 7]}'' ''pair'' Null Null empty_heap of
      None \<Rightarrow> False
    | Some (ok, p, h) \<Rightarrow>
        ok \<and> \<not> ub h \<and> get_static_array_size ''int[2]'' = 2
        \<and> read_int h (ptr_add p (get_field_offset example_types ''pair'' ''b'')) = Some 7)
   \<and> (case parse_composite 10 host example_types ''{nodes: [10: {port: 1}]}'' ''cluster''
              Null Null empty_heap of
        None \<Rightarrow> False
      | Some (ok, p, h) \<Rightarrow> ok \<and> ub h)"
  by code_simp

text \<open>
  Claim C3 (release of a value releases everything it owns).  For the value of the literal
  \<^verbatim>\<open>{tags: ['x']}\<close> of the type \<^verbatim>\<open>group\<close>, the buffer of \<^verbatim>\<open>tags\<close> is block 2 and its
  element owns the string in block 3.  After \<^verbatim>\<open>free_struct\<close> the root and the buffer are
  released, and the string is still allocated: \<^verbatim>\<open>free_aux_mem_dyn_arr\<close> takes the number
  of elements from the type name, where it is not positive, and visits no element.
\<close>

theorem free_struct_leaves_element_strings:
  "(case parse_composite 10 host example_types ''{tags: ['x']}'' ''group'' Null Null empty_heap of
      None \<Rightarrow> False
    | Some (ok, p, h) \<Rightarrow>
        ok \<and> \<not> ub h \<and> p = Ptr 1 0
        \<and> read_ptr h (ptr_add p (get_field_offset example_types ''group'' ''tags'')) = Some (Ptr 2 0)
        \<and> read_ptr h (Ptr 2 0) = Some (Ptr 3 0) \<and> read_str h (Ptr 3 0) = Some ''x''
        \<and> (case free_struct 10 example_types p ''group'' h of
              None \<Rightarrow> False
            | Some h' \<Rightarrow> \<not> ub h' \<and> map alive (blocks h') = [False, False, False, True]))"
  by code_simp

text \<open>
  Claim C4 (comparison returns \<open>-1\<close>, \<open>0\<close> or \<open>1\<close>).  Let \<open>a\<close> be the value of
  \<^verbatim>\<open>{tags: [nil, nil]}\<close> and \<open>b\<close> the value of \<^verbatim>\<open>{name: nil}\<close>, both of the type
  \<^verbatim>\<open>group\<close>; their arrays have the lengths 2 and 0.  Then \<^verbatim>\<open>struct_cmp\<close> returns \<open>2\<close>
  for the records, \<open>-2\<close> with the operands exchanged, and \<open>2\<close> for the two arrays
  themselves: \<^verbatim>\<open>dynamic_array_cmp\<close> returns the difference of the lengths.
\<close>

theorem struct_cmp_returns_length_difference:
  "(case parse_composite 10 host example_types ''{tags: [nil, nil]}'' ''group'' Null Null empty_heap of
      None \<Rightarrow> False
    | Some (ok1, a, h1) \<Rightarrow>
        (case parse_composite 10 host example_types ''{name: nil}'' ''group'' Null Null h1 of
           None \<Rightarrow> False
         | Some (ok2, b, h) \<Rightarrow>
             ok1 \<and> ok2 \<and> \<not> ub h
             \<and> struct_cmp 10 example_types h a b ''group'' = Val 2
             \<and> struct_cmp 10 example_types h b a ''group'' = Val (- 2)
             \<and> struct_cmp 10 example_types h (ptr_add a 8) (ptr_add b 8) ''string[]'' = Val 2))"
  by code_simp

text \<open>
  Claim C6 (extended form: a maximum index of \<open>N\<close> or more fails).  The literal
  \<^verbatim>\<open>{size: -1, data: [5]}\<close> has both fields and its maximum index 0 is not below its size,
  yet the parse succeeds and the array gets the length 1: \<open>-1\<close> is also the value of
  \<^verbatim>\<open>arr_len\<close> that stands for ``no size given''.  The literal of the claim,
  \<^verbatim>\<open>{size: 2, data: [0, 1, 2]}\<close>, fails.
\<close>

theorem extended_form_size_minus_one_accepted:
  "(case parse_composite 10 host example_types ''{xs: {size: -1, data: [5]}}'' ''bag''
          Null Null empty_heap of
      None \<Rightarrow> False
    | Some (ok, p, h) \<Rightarrow>
        ok \<and> \<not> ub h \<and> read_int h (dynamic_array_size_ptr p) = Some 1
        \<and> (case read_ptr h p of Some d \<Rightarrow> read_int h d = Some 5 | None \<Rightarrow> False))
   \<and> (case parse_composite 10 host example_types ''{xs: {size: 2, data: [0, 1, 2]}}'' ''bag''
              Null Null empty_heap of
        None \<Rightarrow> False
      | Some (ok, p, h) \<Rightarrow> \<not> ok \<and> p = Null \<and> \<not> ub h)"
  by code_simp

text \<open>
  Claim C7 (a literal with only \<^verbatim>\<open>size\<close> resizes, new elements zeroed).  On an array that
  was empty, \<^verbatim>\<open>{size: 2}\<close> gives the length 2 and a buffer whose two elements are what
  \<^verbatim>\<open>guc_malloc\<close> returned, not zero: the code clears the added elements only under
  \<^verbatim>\<open>if (last_arr_mem_size && ...)\<close>.  On the array of \<^verbatim>\<open>[1, 2]\<close>, \<^verbatim>\<open>{size: 5}\<close> keeps
  the two elements and clears the three added ones.
\<close>

theorem resize_of_empty_array_not_zeroed:
  "(case parse_composite 10 host example_types ''{xs: {size: 2}}'' ''bag'' Null Null empty_heap of
      None \<Rightarrow> False
    | Some (ok, p, h) \<Rightarrow>
        ok \<and> \<not> ub h \<and> read_int h (dynamic_array_size_ptr p) = Some 2
        \<and> (case read_ptr h p of
              Some d \<Rightarrow> map (\<lambda>i. load h (ptr_add d (4 * i)) 4) [0, 1] = [Some Uninit, Some Uninit]
            | None \<Rightarrow> False))
   \<and> (case parse_composite 10 host example_types ''{xs: [1, 2]}'' ''bag'' Null Null empty_heap of
        None \<Rightarrow> False
      | Some (ok1, v1, h1) \<Rightarrow>
          (case parse_composite 10 host example_types ''{xs: {size: 5}}'' ''bag'' Null v1 h1 of
             None \<Rightarrow> False
           | Some (ok, p, h) \<Rightarrow>
               ok1 \<and> ok \<and> \<not> ub h \<and> read_int h (dynamic_array_size_ptr p) = Some 5
               \<and> (case read_ptr h p of
                     Some d \<Rightarrow>
                       map (\<lambda>i. load h (ptr_add d (4 * i)) 4) [0, 1, 2, 3, 4]
                       = [Some (CInt 1), Some (CInt 2), Some Zero, Some Zero, Some Zero]
                   | None \<Rightarrow> False)))"
  by code_simp

text \<open>
  Claim C9 (without a previous value, what the literal does not assign is zero).  The root
  is cleared: after \<^verbatim>\<open>{name: 'g'}\<close> the array \<^verbatim>\<open>tags\<close> of a \<^verbatim>\<open>group\<close> has a null data
  pointer and the length 0.  The elements of a variable array that the extended form
  creates are not: after \<^verbatim>\<open>{size: 3, data: [1: 5]}\<close> element 1 is 5 and the elements 0
  and 2, which the literal does not assign, are uninitialised memory.
\<close>

theorem unassigned_elements_not_zeroed:
  "(case parse_composite 10 host example_types ''{name: 'g'}'' ''group'' Null Null empty_heap of
      None \<Rightarrow> False
    | Some (ok, p, h) \<Rightarrow>
        ok \<and> \<not> ub h \<and> read_ptr h (ptr_add p 8) = Some Null
        \<and> read_int h (dynamic_array_size_ptr (ptr_add p 8)) = Some 0)
   \<and> (case parse_composite 10 host example_types ''{xs: {size: 3, data: [1: 5]}}'' ''bag''
              Null Null empty_heap of
        None \<Rightarrow> False
      | Some (ok, p, h) \<Rightarrow>
          ok \<and> \<not> ub h \<and> read_int h (dynamic_array_size_ptr p) = Some 3
          \<and> (case read_ptr h p of
                Some d \<Rightarrow>
                  map (\<lambda>i. load h (ptr_add d (4 * i)) 4) [0, 1, 2]
                  = [Some Uninit, Some (CInt 5), Some Uninit]
                  \<and> read_int h d = None
              | None \<Rightarrow> False))"
  by code_simp

section \<open>Failure of a parse that is not a patch list\<close>

text \<open>
  Claim C10.  When the text is not a patch list and \<^verbatim>\<open>parse_composite\<close> returns
  \<^verbatim>\<open>false\<close>, then \<^verbatim>\<open>*result\<close> holds \<^verbatim>\<open>NULL\<close> afterwards, whatever it held before.
\<close>

theorem parse_composite_failure_stores_null:
  assumes "\<not> is_assignment_list v"
    and "parse_composite n E G v type result prev_val h = Some (ok, r, h')"
    and "\<not> ok"
  shows "r = Null"
proof (cases n)
  case 0
  with assms(2) show ?thesis by simp
next
  case (Suc m)
  with assms show ?thesis
    by (auto simp: Let_def split: prod.splits option.splits if_splits)
qed

lemma failing_run:
  "(case parse_composite 10 host example_types ''{zz: 1}'' ''bag'' (Ptr 7 0) Null empty_heap of
      None \<Rightarrow> False
    | Some (ok, r, h) \<Rightarrow> \<not> ok \<and> \<not> ub h)"
  by code_simp

theorem parse_composite_failure_stores_null_witness:
  "\<not> is_assignment_list ''{zz: 1}''
   \<and> (\<exists>h'. parse_composite 10 host example_types ''{zz: 1}'' ''bag'' (Ptr 7 0) Null empty_heap
            = Some (False, Null, h'))"
proof -
  have na: "\<not> is_assignment_list ''{zz: 1}''" by (simp add: is_assignment_list_def)
  from failing_run obtain ok r h' where
    run: "parse_composite 10 host example_types ''{zz: 1}'' ''bag'' (Ptr 7 0) Null empty_heap
          = Some (ok, r, h')" and nok: "\<not> ok"
    by (auto split: option.splits)
  from parse_composite_failure_stores_null [OF na run nok] have "r = Null" .
  with run nok na show ?thesis by auto
qed

section \<open>A failed parse leaves the previous value alone\<close>

text \<open>
  \<^verbatim>\<open>parse_composite\<close> never writes through the pointer to the previous value: it
  duplicates the value and parses into the duplicate.  The invariant of a run that started
  in \<open>h0\<close>: the blocks of \<open>h0\<close> are unchanged, and the blocks allocated since hold no
  pointer into a block of \<open>h0\<close>.  Every write and every release goes through a pointer
  into a block allocated since.
\<close>

subsection \<open>The heap operations\<close>


lemma newer_Null [simp]: "newer h0 Null" by (simp add: newer_def)

lemma newer_ptr_add [simp]: "newer h0 (ptr_add p n) = newer h0 p"
  by (simp add: newer_def ptr_add_def split: ptr.splits)

lemma inv_refl: "frame_inv h h"
  by (auto simp: frame_inv_def kept_def closed_def)

lemma inv_ub [simp]: "frame_inv h0 (h\<lparr>ub := x\<rparr>) = frame_inv h0 h"
  by (simp add: frame_inv_def kept_def closed_def)

lemma inv_length: "frame_inv h0 h \<Longrightarrow> length (blocks h0) \<le> length (blocks h)"
  by (metis frame_inv_def kept_def length_take min.cobounded1 min_def nat_le_linear take_all)

lemma inv_update:
  assumes "frame_inv h0 h" and "length (blocks h0) \<le> b"
    and "\<And>f off q. payload blk = Cells f \<Longrightarrow> f off = CPtr q \<Longrightarrow> newer h0 q"
  shows "frame_inv h0 (h\<lparr>blocks := (blocks h)[b := blk]\<rparr>)"
proof -
  have k: "kept h0 (h\<lparr>blocks := (blocks h)[b := blk]\<rparr>)"
    using assms(1,2) by (simp add: frame_inv_def kept_def)
  have c: "closed h0 (h\<lparr>blocks := (blocks h)[b := blk]\<rparr>)"
    unfolding closed_def
  proof (intro allI impI, elim conjE)
    fix ba f off q
    assume a: "length (blocks h0) \<le> ba" "ba < length (blocks (h\<lparr>blocks := (blocks h)[b := blk]\<rparr>))"
      "payload (blocks (h\<lparr>blocks := (blocks h)[b := blk]\<rparr>) ! ba) = Cells f" "f off = CPtr q"
    show "newer h0 q"
    proof (cases "ba = b")
      case True
      with a have "payload blk = Cells f" by simp
      then show ?thesis using a(4) by (rule assms(3))
    next
      case False
      with a have "ba < length (blocks h)" "payload (blocks h ! ba) = Cells f" by simp_all
      with assms(1) a(1,4) show ?thesis unfolding frame_inv_def closed_def by blast
    qed
  qed
  from k c show ?thesis by (simp add: frame_inv_def)
qed

lemma inv_append:
  assumes "frame_inv h0 h"
    and "\<And>f off q. payload blk = Cells f \<Longrightarrow> f off = CPtr q \<Longrightarrow> newer h0 q"
  shows "frame_inv h0 (h\<lparr>blocks := blocks h @ [blk]\<rparr>)"
  using assms inv_length [OF assms(1)]
  by (auto simp: frame_inv_def kept_def closed_def nth_append)

lemma closedD:
  "frame_inv h0 h \<Longrightarrow> length (blocks h0) \<le> b \<Longrightarrow> b < length (blocks h)
   \<Longrightarrow> payload (blocks h ! b) = Cells f \<Longrightarrow> f off = CPtr q \<Longrightarrow> newer h0 q"
  unfolding frame_inv_def closed_def by blast

lemma store_inv:
  assumes "frame_inv h0 h" and "newer h0 p" and "\<And>q. c = CPtr q \<Longrightarrow> newer h0 q"
  shows "frame_inv h0 (store h p n c)"
proof (cases p)
  case Null then show ?thesis using assms by (simp add: store_def)
next
  case (Ptr b off)
  show ?thesis
  proof (cases "in_block h b off n")
    case False then show ?thesis using assms Ptr by (simp add: store_def)
  next
    case True
    show ?thesis
    proof (cases "payload (blocks h ! b)")
      case (Text s) then show ?thesis using assms Ptr True by (simp add: store_def)
    next
      case (Cells f)
      have nb: "length (blocks h0) \<le> b" using assms(2) Ptr by (simp add: newer_def)
      have bl: "b < length (blocks h)" using True by (simp add: in_block_def)
      have "frame_inv h0 (h\<lparr>blocks := (blocks h)[b := (blocks h ! b)\<lparr>payload := Cells (f(off := c))\<rparr>]\<rparr>)"
      proof (rule inv_update [OF assms(1) nb])
        fix g o' q
        assume "payload ((blocks h ! b)\<lparr>payload := Cells (f(off := c))\<rparr>) = Cells g" and "g o' = CPtr q"
        then show "newer h0 q"
          using closedD [OF assms(1) nb bl Cells] assms(3)
          by (auto split: if_splits)
      qed
      then show ?thesis using Ptr True Cells by (simp add: store_def)
    qed
  qed
qed

lemma store_ptr_inv: "frame_inv h0 h \<Longrightarrow> newer h0 p \<Longrightarrow> newer h0 q \<Longrightarrow> frame_inv h0 (store_ptr h p q)"
  unfolding store_ptr_def by (rule store_inv) (auto split: ptr.splits)

lemma store_scalar_inv [simp]:
  "frame_inv h0 h \<Longrightarrow> newer h0 p \<Longrightarrow> frame_inv h0 (store h p n (CInt i))"
  "frame_inv h0 h \<Longrightarrow> newer h0 p \<Longrightarrow> frame_inv h0 (store h p n (CBool b))"
  "frame_inv h0 h \<Longrightarrow> newer h0 p \<Longrightarrow> frame_inv h0 (store h p n (CReal r))"
  "frame_inv h0 h \<Longrightarrow> newer h0 p \<Longrightarrow> frame_inv h0 (store h p n Zero)"
  by (rule store_inv; simp)+

lemma read_ptr_newer:
  assumes "frame_inv h0 h" and "newer h0 p" and "read_ptr h p = Some q"
  shows "newer h0 q"
proof (cases p)
  case Null then show ?thesis using assms by (simp add: read_ptr_def load_def)
next
  case (Ptr b off)
  then show ?thesis using assms closedD [OF assms(1), of b]
    by (auto simp: read_ptr_def load_def in_block_def newer_def
             split: if_splits payload.splits cell.splits option.splits)
qed

lemma rd_ptr_inv:
  assumes "rd_ptr h p = (q, h1)" and "frame_inv h0 h"
  shows "frame_inv h0 h1"
  using assms by (auto simp: rd_ptr_def split: option.splits)

lemma rd_ptr_newer:
  assumes "rd_ptr h p = (q, h1)" and "frame_inv h0 h" and "newer h0 p"
  shows "newer h0 q"
  using assms read_ptr_newer [OF assms(2,3)] by (auto simp: rd_ptr_def split: option.splits)

lemma rd_int_inv:
  assumes "rd_int h p = (i, h1)" and "frame_inv h0 h"
  shows "frame_inv h0 h1"
  using assms by (auto simp: rd_int_def split: option.splits)

lemma guc_malloc_inv:
  assumes "guc_malloc h n = (p, h1)" and "frame_inv h0 h"
  shows "frame_inv h0 h1" and "newer h0 p"
proof -
  show "frame_inv h0 h1" using assms inv_append [OF assms(2), of "\<lparr>alive = True, bsize = n, payload = Cells (\<lambda>_. Uninit)\<rparr>"]
    by (auto simp: guc_malloc_def split: if_splits)
  show "newer h0 p" using assms inv_length [OF assms(2)]
    by (auto simp: guc_malloc_def newer_def split: if_splits)
qed

lemma guc_strdup_inv:
  assumes "guc_strdup h s = (p, h1)" and "frame_inv h0 h"
  shows "frame_inv h0 h1" and "newer h0 p"
proof -
  show "frame_inv h0 h1" using assms inv_append [OF assms(2), of "\<lparr>alive = True, bsize = int (length s) + 1, payload = Text s\<rparr>"]
    by (auto simp: guc_strdup_def)
  show "newer h0 p" using assms inv_length [OF assms(2)]
    by (auto simp: guc_strdup_def newer_def)
qed

lemma alloc_DynArrTmp_inv:
  assumes "alloc_DynArrTmp h = (p, h1)" and "frame_inv h0 h"
  shows "frame_inv h0 h1" and "newer h0 p"
proof -
  have "frame_inv h0 (h\<lparr>blocks := blocks h @ [\<lparr>alive = True, bsize = sizeof_ptr * 2,
           payload = Cells ((\<lambda>_. Zero)(sizeof_ptr := CInt (- 1)))\<rparr>]\<rparr>)"
    by (rule inv_append [OF assms(2)]) (auto split: if_splits)
  then show "frame_inv h0 h1" using assms(1) by (auto simp: alloc_DynArrTmp_def)
  show "newer h0 p" using assms inv_length [OF assms(2)]
    by (auto simp: alloc_DynArrTmp_def newer_def)
qed

lemma guc_free_inv:
  assumes "frame_inv h0 h" and "newer h0 p"
  shows "frame_inv h0 (guc_free h p)"
proof (cases p)
  case Null then show ?thesis using assms by (simp add: guc_free_def)
next
  case (Ptr b off)
  have nb: "length (blocks h0) \<le> b" using assms(2) Ptr by (simp add: newer_def)
  show ?thesis
  proof (cases "b < length (blocks h) \<and> alive (blocks h ! b) \<and> off = 0")
    case False then show ?thesis using assms Ptr by (auto simp: guc_free_def)
  next
    case True
    have "frame_inv h0 (h\<lparr>blocks := (blocks h)[b := (blocks h ! b)\<lparr>alive := False\<rparr>]\<rparr>)"
      by (rule inv_update [OF assms(1) nb]) (use closedD [OF assms(1) nb] True in auto)
    then show ?thesis using Ptr True by (simp add: guc_free_def)
  qed
qed

lemma memset_zero_inv:
  assumes "frame_inv h0 h" and "newer h0 p"
  shows "frame_inv h0 (memset_zero h p n)"
proof (cases p)
  case Null then show ?thesis using assms by (simp add: memset_zero_def)
next
  case (Ptr b off)
  have nb: "length (blocks h0) \<le> b" using assms(2) Ptr by (simp add: newer_def)
  show ?thesis
  proof (cases "0 < n \<and> in_block h b off n")
    case False then show ?thesis using assms Ptr by (auto simp: memset_zero_def)
  next
    case True
    then have bl: "b < length (blocks h)" by (simp add: in_block_def)
    show ?thesis
    proof (cases "payload (blocks h ! b)")
      case (Text s) then show ?thesis using assms Ptr True by (simp add: memset_zero_def)
    next
      case (Cells f)
      have "frame_inv h0 (h\<lparr>blocks := (blocks h)[b := (blocks h ! b)
                \<lparr>payload := Cells (\<lambda>x. if off \<le> x \<and> x < off + n then Zero else f x)\<rparr>]\<rparr>)"
      proof (rule inv_update [OF assms(1) nb])
        fix g o' q
        assume "payload ((blocks h ! b)\<lparr>payload := Cells (\<lambda>x. if off \<le> x \<and> x < off + n then Zero else f x)\<rparr>) = Cells g"
          and "g o' = CPtr q"
        then show "newer h0 q"
          using closedD [OF assms(1) nb bl Cells] by (auto split: if_splits)
      qed
      then show ?thesis using Ptr True Cells by (simp add: memset_zero_def)
    qed
  qed
qed

text \<open>memcpy: the cells copied are those of the source.\<close>

lemma memcpy_inv_gen:
  assumes "frame_inv h0 h" and "newer h0 dst"
    and src: "\<And>sb soff g k q. src = Ptr sb soff \<Longrightarrow> sb < length (blocks h)
          \<Longrightarrow> payload (blocks h ! sb) = Cells g \<Longrightarrow> 0 \<le> k \<Longrightarrow> k < n
          \<Longrightarrow> g (soff + k) = CPtr q \<Longrightarrow> newer h0 q"
  shows "frame_inv h0 (memcpy h dst src n)"
proof (cases "0 < n")
  case False then show ?thesis using assms(1) by (auto simp: memcpy_def)
next
  case pos: True
  show ?thesis
  proof (cases dst)
    case Null then show ?thesis using assms(1) pos by (simp add: memcpy_def)
  next
    case (Ptr b off)
    have nb: "length (blocks h0) \<le> b" using assms(2) Ptr by (simp add: newer_def)
    show ?thesis
    proof (cases src)
      case Null then show ?thesis using assms(1) pos Ptr by (simp add: memcpy_def)
    next
      case sp: (Ptr sb soff)
      show ?thesis
      proof (cases "in_block h b off n \<and> in_block h sb soff n")
        case False then show ?thesis using assms(1) pos Ptr sp by (auto simp: memcpy_def)
      next
        case True
        then have bl: "b < length (blocks h)" and sbl: "sb < length (blocks h)"
          by (simp_all add: in_block_def)
        show ?thesis
        proof (cases "payload (blocks h ! b)")
          case (Text s) then show ?thesis using assms(1) pos Ptr sp True by (simp add: memcpy_def)
        next
          case (Cells f)
          show ?thesis
          proof (cases "payload (blocks h ! sb)")
            case (Text s) then show ?thesis using assms(1) pos Ptr sp True Cells by (simp add: memcpy_def)
          next
            case sc: (Cells g)
            have "frame_inv h0 (h\<lparr>blocks := (blocks h)[b := (blocks h ! b)
                      \<lparr>payload := Cells (\<lambda>x. if off \<le> x \<and> x < off + n
                                               then copied_cell g soff n (x - off) else f x)\<rparr>]\<rparr>)"
            proof (rule inv_update [OF assms(1) nb])
              fix g' o' q
              assume a: "payload ((blocks h ! b)\<lparr>payload := Cells (\<lambda>x. if off \<le> x \<and> x < off + n
                                               then copied_cell g soff n (x - off) else f x)\<rparr>) = Cells g'"
                and b: "g' o' = CPtr q"
              show "newer h0 q"
              proof (cases "off \<le> o' \<and> o' < off + n")
                case False
                with a b have "f o' = CPtr q" by auto
                then show ?thesis using closedD [OF assms(1) nb bl Cells] by blast
              next
                case True
                with a b have "copied_cell g soff n (o' - off) = CPtr q" by auto
                then have "g (soff + (o' - off)) = CPtr q"
                  by (auto simp: copied_cell_def split: if_splits)
                then show ?thesis using src [OF sp sbl sc, of "o' - off" q] True by simp
              qed
            qed
            then show ?thesis using pos Ptr sp True Cells sc by (simp add: memcpy_def)
          qed
        qed
      qed
    qed
  qed
qed

lemma memcpy_inv:
  assumes "frame_inv h0 h" and "newer h0 dst" and "newer h0 src"
  shows "frame_inv h0 (memcpy h dst src n)"
proof (rule memcpy_inv_gen [OF assms(1,2)])
  fix sb soff g k q
  assume "src = Ptr sb soff" "sb < length (blocks h)" "payload (blocks h ! sb) = Cells g"
    "g (soff + k) = CPtr q"
  then show "newer h0 q" using closedD [OF assms(1), of sb g] assms(3) by (simp add: newer_def)
qed

lemma check_int_inv [simp]: "frame_inv h0 (check_int x h) = frame_inv h0 h"
  by (simp add: check_int_def)

subsection \<open>Duplication\<close>


lemma for_each_inv:
  assumes "\<And>i h h'. i \<in> set ns \<Longrightarrow> frame_inv h0 h \<Longrightarrow> f i h = Some h' \<Longrightarrow> frame_inv h0 h'"
    and "frame_inv h0 h" and "for_each f ns h = Some h'"
  shows "frame_inv h0 h'"
  using assms by (induction ns arbitrary: h) (auto split: option.splits)

lemma old_block:
  assumes "frame_inv h0 h" and "b < length (blocks h0)"
  shows "blocks h ! b = blocks h0 ! b" and "b < length (blocks h)"
proof -
  have "take (length (blocks h0)) (blocks h) = blocks h0"
    using assms(1) by (simp add: frame_inv_def kept_def)
  then show "blocks h ! b = blocks h0 ! b" using assms(2) by (metis nth_take)
  show "b < length (blocks h)" using inv_length [OF assms(1)] assms(2) by simp
qed

lemma load_old:
  assumes "frame_inv h0 h" and "\<not> newer h0 p"
  shows "load h p n = load h0 p n"
proof (cases p)
  case Null then show ?thesis by (simp add: load_def)
next
  case (Ptr b off)
  with assms(2) have b: "b < length (blocks h0)" by (simp add: newer_def)
  show ?thesis using Ptr b old_block [OF assms(1) b] by (simp add: load_def in_block_def)
qed

lemma read_old:
  assumes "frame_inv h0 h" and "\<not> newer h0 p"
  shows "read_int h (ptr_add p n) = read_int h0 (ptr_add p n)" and "read_ptr h p = read_ptr h0 p"
  using load_old [OF assms, of sizeof_ptr] load_old [OF assms(1), of "ptr_add p n" 4] assms(2)
  by (simp_all add: read_int_def read_ptr_def)

lemma on_type_inv:
  assumes "\<And>bt. t = Some bt \<Longrightarrow> f bt h = Some h' \<Longrightarrow> frame_inv h0 h'"
    and "frame_inv h0 h" and "on_type f t h = Some h'"
  shows "frame_inv h0 h'"
  using assms by (cases t) (auto simp: on_type_def)

lemma static_array_duplicate_inv:
  assumes R: "\<And>d s t h h'. frame_inv h0 h \<Longrightarrow> newer h0 d \<Longrightarrow> newer h0 s \<or> Pl s t
                 \<Longrightarrow> rec d s t h = Some h' \<Longrightarrow> frame_inv h0 h'"
    and h: "frame_inv h0 h" and d: "newer h0 dest"
    and S: "\<And>i bt. get_array_basic_type type = Some bt \<Longrightarrow> i < nat (get_static_array_size type)
              \<Longrightarrow> newer h0 src \<or> Pl (ptr_add src (get_element_offset_with_index G type (int i))) bt"
    and run: "static_array_duplicate rec G dest src type h = Some h'"
  shows "frame_inv h0 h'"
proof -
  from run have fe: "for_each
       (\<lambda>i. on_type
               (rec (ptr_add dest (get_element_offset_with_index G type (int i)))
                    (ptr_add src (get_element_offset_with_index G type (int i))))
               (get_array_basic_type type))
       [0 ..< nat (get_static_array_size type)] h = Some h'"
    by (simp add: static_array_duplicate_def Let_def)
  show ?thesis
  proof (rule for_each_inv [OF _ h fe])
    fix i h1 h2
    assume i: "i \<in> set [0 ..< nat (get_static_array_size type)]" and h1: "frame_inv h0 h1"
      and o: "on_type
               (rec (ptr_add dest (get_element_offset_with_index G type (int i)))
                    (ptr_add src (get_element_offset_with_index G type (int i))))
               (get_array_basic_type type) h1 = Some h2"
    show "frame_inv h0 h2"
    proof (rule on_type_inv [OF _ h1 o])
      fix bt
      assume bt: "get_array_basic_type type = Some bt"
        and r: "rec (ptr_add dest (get_element_offset_with_index G type (int i)))
                    (ptr_add src (get_element_offset_with_index G type (int i))) bt h1 = Some h2"
      from i have "i < nat (get_static_array_size type)" by simp
      from S [OF bt this]
      have "newer h0 (ptr_add src (get_element_offset_with_index G type (int i)))
            \<or> Pl (ptr_add src (get_element_offset_with_index G type (int i))) bt" by auto
      with R [OF h1 _ _ r] d show "frame_inv h0 h2" by simp
    qed
  qed
qed

lemma dynamic_array_duplicate_inv:
  assumes R: "\<And>d s t h h'. frame_inv h0 h \<Longrightarrow> newer h0 d \<Longrightarrow> newer h0 s \<or> Pl s t
                 \<Longrightarrow> rec d s t h = Some h' \<Longrightarrow> frame_inv h0 h'"
    and h: "frame_inv h0 h" and d: "newer h0 dest"
    and S: "\<And>i bt sz da. get_array_basic_type type = Some bt
              \<Longrightarrow> read_int h (dynamic_array_size_ptr src) = Some sz \<Longrightarrow> read_ptr h src = Some da
              \<Longrightarrow> i < nat sz
              \<Longrightarrow> newer h0 da \<or> Pl (ptr_add da (get_element_offset_with_index G type (int i))) bt"
    and run: "dynamic_array_duplicate rec G dest src type h = Some h'"
  shows "frame_inv h0 h'"
proof -
  obtain arr_size h1 where ri: "rd_int h (dynamic_array_size_ptr src) = (arr_size, h1)"
    by (cases "rd_int h (dynamic_array_size_ptr src)")
  have h1: "frame_inv h0 h1" by (rule rd_int_inv [OF ri h])
  show ?thesis
  proof (cases "arr_size = 0")
    case True
    with run ri have "h' = store (store_ptr h1 dest Null) (ptr_add dest sizeof_ptr) sizeof_ptr Zero"
      by (simp add: dynamic_array_duplicate_def Let_def)
    then show ?thesis using h1 d by (simp add: store_ptr_inv)
  next
    case nz: False
    with ri have rs: "read_int h (dynamic_array_size_ptr src) = Some arr_size" and hh: "h1 = h"
      by (auto simp: rd_int_def split: option.splits)
    obtain datap h2 where rp: "rd_ptr h1 src = (datap, h2)" by (cases "rd_ptr h1 src")
    have h2: "frame_inv h0 h2" by (rule rd_ptr_inv [OF rp h1])
    obtain dstp h3 where
      gm: "guc_malloc h2 (get_dynamic_array_mem_size_with_length G type arr_size) = (dstp, h3)"
      by (cases "guc_malloc h2 (get_dynamic_array_mem_size_with_length G type arr_size)")
    have h3: "frame_inv h0 h3" and dn: "newer h0 dstp" using guc_malloc_inv [OF gm h2] by simp_all
    from run ri nz rp gm obtain h4 where
      fe: "for_each
             (\<lambda>i. on_type
                     (rec (ptr_add dstp (get_element_offset_with_index G type (int i)))
                          (ptr_add datap (get_element_offset_with_index G type (int i))))
                     (get_array_basic_type type))
             [0 ..< nat arr_size] (store_ptr h3 dest dstp) = Some h4"
      and h': "h' = store h4 (ptr_add dest sizeof_ptr) 4 (CInt arr_size)"
      by (auto simp: dynamic_array_duplicate_def Let_def split: option.splits)
    have st: "frame_inv h0 (store_ptr h3 dest dstp)" by (rule store_ptr_inv [OF h3 d dn])
    have "frame_inv h0 h4"
    proof (rule for_each_inv [OF _ st fe])
      fix i ha hb
      assume i: "i \<in> set [0 ..< nat arr_size]" and ha: "frame_inv h0 ha"
        and o: "on_type
                 (rec (ptr_add dstp (get_element_offset_with_index G type (int i)))
                      (ptr_add datap (get_element_offset_with_index G type (int i))))
                 (get_array_basic_type type) ha = Some hb"
      show "frame_inv h0 hb"
      proof (rule on_type_inv [OF _ ha o])
        fix bt
        assume bt: "get_array_basic_type type = Some bt"
          and r: "rec (ptr_add dstp (get_element_offset_with_index G type (int i)))
                      (ptr_add datap (get_element_offset_with_index G type (int i))) bt ha = Some hb"
        have "newer h0 datap \<or> Pl (ptr_add datap (get_element_offset_with_index G type (int i))) bt"
        proof (cases "read_ptr h src")
          case None
          with rp hh have "datap = Null" by (simp add: rd_ptr_def)
          then show ?thesis by simp
        next
          case (Some da)
          with rp hh have "datap = da" by (simp add: rd_ptr_def)
          with S [OF bt rs Some] i show ?thesis by simp
        qed
        then have "newer h0 (ptr_add datap (get_element_offset_with_index G type (int i)))
            \<or> Pl (ptr_add datap (get_element_offset_with_index G type (int i))) bt" by auto
        with R [OF ha _ _ r] dn show "frame_inv h0 hb" by simp
      qed
    qed
    with h' d show ?thesis by simp
  qed
qed

lemma struct_duplicate_inv:
  assumes R: "\<And>d s t h h'. frame_inv h0 h \<Longrightarrow> newer h0 d \<Longrightarrow> newer h0 s \<or> Pl s t
                 \<Longrightarrow> rec d s t h = Some h' \<Longrightarrow> frame_inv h0 h'"
    and h: "frame_inv h0 h" and d: "newer h0 dest"
    and A: "\<And>td. get_type_definition G type = Some td \<Longrightarrow> cnt_fields td = 0 \<Longrightarrow> type \<noteq> ''string''
              \<Longrightarrow> newer h0 src \<or> \<not> holds_pointer h0 src (type_size td)"
    and S: "\<And>i td f. get_type_definition G type = Some td \<Longrightarrow> cnt_fields td \<noteq> 0
              \<Longrightarrow> i < nat (cnt_fields td) \<Longrightarrow> field_slot td i = Some f
              \<Longrightarrow> newer h0 src \<or> Pl (ptr_add src (get_field_offset G type (f_name f))) (f_type f)"
    and run: "struct_duplicate rec G dest src type h = Some h'"
  shows "frame_inv h0 h'"
proof (cases "get_type_definition G type")
  case None
  with run h show ?thesis by (simp add: struct_duplicate_def)
next
  case (Some td)
  show ?thesis
  proof (cases "cnt_fields td = 0")
    case False
    with run Some have fe: "for_each
              (\<lambda>i h'. case field_slot td i of
                         None \<Rightarrow> Some (h'\<lparr>ub := True\<rparr>)
                       | Some f \<Rightarrow>
                           (let field_offset = get_field_offset G type (f_name f)
                            in rec (ptr_add dest field_offset)
                                 (ptr_add src field_offset) (f_type f) h'))
              [0 ..< nat (cnt_fields td)] h = Some h'"
      by (simp add: struct_duplicate_def)
    show ?thesis
    proof (rule for_each_inv [OF _ h fe])
      fix i ha hb
      assume i: "i \<in> set [0 ..< nat (cnt_fields td)]" and ha: "frame_inv h0 ha"
        and o: "(case field_slot td i of
                         None \<Rightarrow> Some (ha\<lparr>ub := True\<rparr>)
                       | Some f \<Rightarrow>
                           (let field_offset = get_field_offset G type (f_name f)
                            in rec (ptr_add dest field_offset)
                                 (ptr_add src field_offset) (f_type f) ha)) = Some hb"
      show "frame_inv h0 hb"
      proof (cases "field_slot td i")
        case None
        with o ha show ?thesis by auto
      next
        case f: (Some f)
        with o have r: "rec (ptr_add dest (get_field_offset G type (f_name f)))
                 (ptr_add src (get_field_offset G type (f_name f))) (f_type f) ha = Some hb"
          by (simp add: Let_def)
        from i have "i < nat (cnt_fields td)" by simp
        from S [OF Some False this f]
        have "newer h0 (ptr_add src (get_field_offset G type (f_name f)))
              \<or> Pl (ptr_add src (get_field_offset G type (f_name f))) (f_type f)" by auto
        with R [OF ha _ _ r] d show ?thesis by simp
      qed
    qed
  next
    case True
    show ?thesis
    proof (cases "type = ''string''")
      case str: True
      obtain s h1 where rp: "rd_ptr h src = (s, h1)" by (cases "rd_ptr h src")
      have h1: "frame_inv h0 h1" by (rule rd_ptr_inv [OF rp h])
      show ?thesis
      proof (cases "s = Null")
        case True
        with run Some \<open>cnt_fields td = 0\<close> str rp have "h' = store_ptr h1 dest Null"
          by (simp add: struct_duplicate_def)
        with h1 d show ?thesis by (simp add: store_ptr_inv)
      next
        case sn: False
        show ?thesis
        proof (cases "read_str h1 s")
          case None
          with run Some \<open>cnt_fields td = 0\<close> str rp sn have "h' = h1\<lparr>ub := True\<rparr>"
            by (simp add: struct_duplicate_def)
          with h1 show ?thesis by simp
        next
          case tx: (Some tx)
          obtain q h2 where gs: "guc_strdup h1 tx = (q, h2)" by (cases "guc_strdup h1 tx")
          from run Some \<open>cnt_fields td = 0\<close> str rp sn tx gs have "h' = store_ptr h2 dest q"
            by (simp add: struct_duplicate_def)
          with guc_strdup_inv [OF gs h1] d show ?thesis by (simp add: store_ptr_inv)
        qed
      qed
    next
      case ns: False
      with run Some True have h': "h' = memcpy h dest src (type_size td)"
        by (simp add: struct_duplicate_def)
      have "frame_inv h0 (memcpy h dest src (type_size td))"
      proof (rule memcpy_inv_gen [OF h d])
        fix sb soff g k q
        assume sp: "src = Ptr sb soff" and sbl: "sb < length (blocks h)"
          and g: "payload (blocks h ! sb) = Cells g" and k: "0 \<le> k" "k < type_size td"
          and c: "g (soff + k) = CPtr q"
        show "newer h0 q"
        proof (cases "newer h0 src")
          case True
          with sp have "length (blocks h0) \<le> sb" by (simp add: newer_def)
          from closedD [OF h this sbl g c] show ?thesis .
        next
          case False
          with sp have b: "sb < length (blocks h0)" by (simp add: newer_def)
          from A [OF Some True ns] False have np: "\<not> holds_pointer h0 src (type_size td)" by simp
          have "blocks h ! sb = blocks h0 ! sb" by (rule old_block(1) [OF h b])
          with g have g0: "payload (blocks h0 ! sb) = Cells g" by simp
          have kin: "k \<in> set [0 .. type_size td - 1]" using k by simp
          from np sp b g0
          have "\<forall>k\<in>set [0 .. type_size td - 1].
                  \<not> (case g (soff + k) of CPtr q \<Rightarrow> True | _ \<Rightarrow> False)"
            by (simp add: holds_pointer_def list_ex_iff)
          then have "\<not> (case g (soff + k) of CPtr q \<Rightarrow> True | _ \<Rightarrow> False)"
            using kin by (rule bspec)
          with c show ?thesis by simp
        qed
      qed
      with h' show ?thesis by simp
    qed
  qed
qed

lemma struct_dup_impl_inv:
  "frame_inv h0 h \<Longrightarrow> newer h0 dest \<Longrightarrow> newer h0 src \<or> plain_scalars k G h0 src t
   \<Longrightarrow> struct_dup_impl k G dest src t h = Some h' \<Longrightarrow> frame_inv h0 h'"
proof (induction k arbitrary: dest src t h h')
  case 0
  then show ?case by simp
next
  case (Suc k)
  have R: "\<And>d s t h h'. frame_inv h0 h \<Longrightarrow> newer h0 d \<Longrightarrow> newer h0 s \<or> plain_scalars k G h0 s t
                 \<Longrightarrow> struct_dup_impl k G d s t h = Some h' \<Longrightarrow> frame_inv h0 h'"
    by (rule Suc.IH)
  note h = Suc.prems(1) and d = Suc.prems(2) and s = Suc.prems(3) and run = Suc.prems(4)
  show ?case
  proof (cases "is_static_array_type t")
    case True
    with run have r: "static_array_duplicate (struct_dup_impl k G) G dest src t h = Some h'" by simp
    show ?thesis
    proof (rule static_array_duplicate_inv [where Pl = "plain_scalars k G h0", OF R h d _ r])
      fix i bt
      assume "get_array_basic_type t = Some bt" "i < nat (get_static_array_size t)"
      with s True
      show "newer h0 src \<or> plain_scalars k G h0 (ptr_add src (get_element_offset_with_index G t (int i))) bt"
        by (auto simp: list_all_iff)
    qed
  next
    case ns: False
    show ?thesis
    proof (cases "is_dynamic_array_type t")
      case True
      with run ns have r: "dynamic_array_duplicate (struct_dup_impl k G) G dest src t h = Some h'" by simp
      show ?thesis
      proof (rule dynamic_array_duplicate_inv [where Pl = "plain_scalars k G h0", OF R h d _ r])
        fix i bt sz da
        assume bt: "get_array_basic_type t = Some bt"
          and sz: "read_int h (dynamic_array_size_ptr src) = Some sz"
          and da: "read_ptr h src = Some da" and i: "i < nat sz"
        show "newer h0 da \<or> plain_scalars k G h0 (ptr_add da (get_element_offset_with_index G t (int i))) bt"
        proof (cases "newer h0 src")
          case True
          from read_ptr_newer [OF h True da] show ?thesis by simp
        next
          case False
          from read_old(1) [OF h False, of sizeof_ptr] read_old(2) [OF h False] sz da
          have "read_int h0 (dynamic_array_size_ptr src) = Some sz" "read_ptr h0 src = Some da"
            by (simp_all add: dynamic_array_size_ptr_def)
          with s False ns True bt i show ?thesis by (auto simp: list_all_iff)
        qed
      qed
    next
      case nd: False
      with run ns have r: "struct_duplicate (struct_dup_impl k G) G dest src t h = Some h'" by simp
      show ?thesis
      proof (rule struct_duplicate_inv [where Pl = "plain_scalars k G h0", OF R h d _ _ r])
        fix td
        assume "get_type_definition G t = Some td" "cnt_fields td = 0" "t \<noteq> ''string''"
        with s ns nd show "newer h0 src \<or> \<not> holds_pointer h0 src (type_size td)" by auto
      next
        fix i td f
        assume td: "get_type_definition G t = Some td" "cnt_fields td \<noteq> 0"
          and i: "i < nat (cnt_fields td)" and f: "field_slot td i = Some f"
        show "newer h0 src \<or> plain_scalars k G h0 (ptr_add src (get_field_offset G t (f_name f))) (f_type f)"
        proof (cases "newer h0 src")
          case True then show ?thesis by simp
        next
          case False
          with s ns nd td
          have "\<forall>i\<in>set [0 ..< nat (cnt_fields td)].
                  case field_slot td i of
                    None \<Rightarrow> True
                  | Some f \<Rightarrow> plain_scalars k G h0 (ptr_add src (get_field_offset G t (f_name f))) (f_type f)"
            by (simp add: list_all_iff)
          moreover have "i \<in> set [0 ..< nat (cnt_fields td)]" using i by simp
          ultimately have "case field_slot td i of
                    None \<Rightarrow> True
                  | Some f \<Rightarrow> plain_scalars k G h0 (ptr_add src (get_field_offset G t (f_name f))) (f_type f)"
            by (rule bspec)
          with f show ?thesis by simp
        qed
      qed
    qed
  qed
qed

lemma plain_scalars_less:
  "plain_scalars (Suc k) G h p t \<Longrightarrow> plain_scalars k G h p t"
proof (induction k arbitrary: p t)
  case 0
  then show ?case by simp
next
  case (Suc k)
  have IH: "\<And>p t. plain_scalars (Suc k) G h p t \<Longrightarrow> plain_scalars k G h p t" by (rule Suc.IH)
  from Suc.prems show ?case
    apply (subst plain_scalars.simps(2))
    apply (subst (asm) plain_scalars.simps(2))
    apply (auto simp: list_all_iff split: option.splits intro: IH)
    done
qed

lemma struct_dup_inv:
  assumes "frame_inv h0 h" and "newer h0 src \<or> plain_scalars k G h0 src t"
    and "struct_dup k G src t h = Some (p, h')"
  shows "frame_inv h0 h'" and "newer h0 p"
proof -
  show "frame_inv h0 h'"
  proof (cases "src = Null")
    case True with assms show ?thesis by (simp add: struct_dup_def)
  next
    case False
    obtain d h1 where gm: "guc_malloc h (get_type_size G (Some t)) = (d, h1)"
      by (cases "guc_malloc h (get_type_size G (Some t))")
    with assms(3) False have r: "struct_dup_impl k G d src t h1 = Some h'"
      by (auto simp: struct_dup_def split: option.splits)
    from struct_dup_impl_inv [OF guc_malloc_inv(1) [OF gm assms(1)] guc_malloc_inv(2) [OF gm assms(1)] assms(2) r]
    show ?thesis .
  qed
  show "newer h0 p"
  proof (cases "src = Null")
    case True with assms show ?thesis by (simp add: struct_dup_def)
  next
    case False
    obtain d h1 where gm: "guc_malloc h (get_type_size G (Some t)) = (d, h1)"
      by (cases "guc_malloc h (get_type_size G (Some t))")
    with assms(3) False have "p = d" by (auto simp: struct_dup_def split: option.splits)
    with guc_malloc_inv(2) [OF gm assms(1)] show ?thesis by simp
  qed
qed

subsection \<open>The parsers\<close>


lemma mem_set_char [simp]: "mem (set_char st i c) = mem st"
  by (simp add: set_char_def)

lemma mem_set_ub [simp]: "mem (set_ub st) = (mem st)\<lparr>ub := True\<rparr>"
  by (simp add: set_ub_def)

lemma keepsD:
  "keeps h0 rec \<Longrightarrow> frame_inv h0 (mem st) \<Longrightarrow> newer h0 p \<Longrightarrow> rec c t p st = Some (r, st')
   \<Longrightarrow> frame_inv h0 (mem st')"
  unfolding keeps_def by blast

lemma parse_atomic_type_inv:
  assumes h: "frame_inv h0 (mem st)" and p: "newer h0 result"
    and run: "parse_atomic_type E strval struct_type result st = (r, st')"
  shows "frame_inv h0 (mem st')"
proof -
  obtain q h1 where gs: "guc_strdup (mem st)
      (if char_at (scheme st) strval = CHR 0x27
       then DeescapeQuotedString E (c_string (scheme st) strval)
       else c_string (scheme st) strval) = (q, h1)"
    by (cases "guc_strdup (mem st)
      (if char_at (scheme st) strval = CHR 0x27
       then DeescapeQuotedString E (c_string (scheme st) strval)
       else c_string (scheme st) strval)")
  note g = guc_strdup_inv [OF gs h]
  from run gs show ?thesis
    using h p g store_ptr_inv [OF h p newer_Null] store_ptr_inv [OF g(1) p g(2)]
    by (auto simp: parse_atomic_type_def Let_def split: if_splits option.splits)
qed

lemma parse_array_element_inv:
  assumes R: "keeps h0 rec" and h: "frame_inv h0 (mem st)" and p: "newer h0 res_arr"
    and run: "parse_array_element rec G strval array_type res_arr prev_index st = Some (r, st')"
  shows "frame_inv h0 (mem st')"
  using run h p
  by (auto simp: parse_array_element_def Let_def
           split: option.splits if_splits prod.splits
           dest!: keepsD [OF R, rotated 2])

lemma parse_struct_element_inv:
  assumes R: "keeps h0 rec" and h: "frame_inv h0 (mem st)" and p: "newer h0 res_struct"
    and run: "parse_struct_element rec G strval struct_type res_struct st = Some (r, st')"
  shows "frame_inv h0 (mem st')"
  using run h p
  by (auto simp: parse_struct_element_def Let_def
           split: option.splits if_splits prod.splits
           dest!: keepsD [OF R, rotated 2])

lemma element_loop_inv:
  assumes E: "\<And>c i st r st'. frame_inv h0 (mem st) \<Longrightarrow> elem c i st = Some (r, st')
                \<Longrightarrow> frame_inv h0 (mem st')"
  shows "frame_inv h0 (mem st) \<Longrightarrow> element_loop k closing elem c i st = Some (r, st')
         \<Longrightarrow> frame_inv h0 (mem st')"
proof (induction k arbitrary: c i st)
  case 0
  then show ?case by simp
next
  case (Suc k)
  show ?case
  proof (cases "char_at (scheme st) (c - 1) = closing")
    case True
    with Suc.prems show ?thesis by simp
  next
    case False
    with Suc.prems(2) obtain er st1 where e: "elem c i st = Some (er, st1)"
      by (auto split: option.splits)
    have h1: "frame_inv h0 (mem st1)" by (rule E [OF Suc.prems(1) e])
    from Suc.prems(2) False e h1 Suc.IH [OF h1] show ?thesis
      by (auto split: if_splits)
  qed
qed

lemma parse_prepared_array_inv:
  assumes R: "keeps h0 rec" and h: "frame_inv h0 (mem st)" and p: "newer h0 res_arr"
    and run: "parse_prepared_array n rec G start array_type res_arr st = Some (r, st')"
  shows "frame_inv h0 (mem st')"
proof (rule element_loop_inv [where elem = "\<lambda>c i. parse_array_element rec G c array_type res_arr (i - 1)",
         OF _ h run [unfolded parse_prepared_array_def]])
  fix c i st1 r1 st2
  assume "frame_inv h0 (mem st1)"
    and "parse_array_element rec G c array_type res_arr (i - 1) st1 = Some (r1, st2)"
  then show "frame_inv h0 (mem st2)" by (rule parse_array_element_inv [OF R _ p])
qed

lemma parse_static_array_inv:
  assumes R: "keeps h0 rec" and h: "frame_inv h0 (mem st)" and p: "newer h0 res_arr"
    and run: "parse_static_array n rec G strval array_type res_arr st = Some (r, st')"
  shows "frame_inv h0 (mem st')"
  using run h parse_prepared_array_inv [OF R h p]
  by (auto simp: parse_static_array_def Let_def split: if_splits)

lemma replace_snapshot_inv:
  assumes "frame_inv h0 h" and "newer h0 res_arr" and "newer h0 old_data" and "newer h0 new_data"
  shows "frame_inv h0 (replace_snapshot h res_arr old_data new_data arr_len)"
  unfolding replace_snapshot_def dynamic_array_size_ptr_def
  using assms by (simp add: store_ptr_inv guc_free_inv)

lemma parse_dynamic_array_inv:
  assumes R: "keeps h0 rec" and h: "frame_inv h0 (mem st)" and p: "newer h0 res_arr"
    and run: "parse_dynamic_array n rec G strval array_type res_arr st = Some (r, st')"
  shows "frame_inv h0 (mem st')"
proof -
  have K: "frame_inv h0 (mem st')"
    if gm: "guc_malloc hx z = (nd, h1)" and hx: "frame_inv h0 hx"
      and rp: "rd_ptr h1 res_arr = (od, h2)"
      and h3: "h3 = memcpy h2 nd od a \<or> h3 = h2"
      and pp: "parse_prepared_array n rec G strval array_type nd
                 (st\<lparr>mem := replace_snapshot (memset_zero h3 (ptr_add nd b) w) res_arr od nd al\<rparr>)
               = Some (r, st')"
    for hx z nd h1 od h2 h3 a b w al
  proof -
    have h1: "frame_inv h0 h1" and nn: "newer h0 nd" using guc_malloc_inv [OF gm hx] by simp_all
    have h2: "frame_inv h0 h2" by (rule rd_ptr_inv [OF rp h1])
    have on: "newer h0 od" by (rule rd_ptr_newer [OF rp h1 p])
    have "frame_inv h0 h3" using h3 h2 nn on by (auto simp: memcpy_inv)
    then have "frame_inv h0 (replace_snapshot (memset_zero h3 (ptr_add nd b) w) res_arr od nd al)"
      using nn on p by (simp add: replace_snapshot_inv memset_zero_inv)
    with parse_prepared_array_inv [OF R _ nn pp] show ?thesis by simp
  qed
  obtain last_arr_len ha where ri: "rd_int (mem st) (dynamic_array_size_ptr res_arr) = (last_arr_len, ha)"
    by (cases "rd_int (mem st) (dynamic_array_size_ptr res_arr)")
  have ha: "frame_inv h0 ha" by (rule rd_int_inv [OF ri h])
  have hc: "\<And>x y. frame_inv h0 (check_int x (check_int y ha))" using ha by simp
  from run ri ha show ?thesis
    by (auto simp: parse_dynamic_array_def Let_def
             split: if_splits prod.splits elim: K [OF _ hc])
qed

lemma resize_extended_inv:
  assumes h: "frame_inv h0 h" and p: "newer h0 res_arr"
    and run: "resize_extended G array_type res_arr lms arr_len h = (new_data, h')"
  shows "frame_inv h0 h'" and "newer h0 new_data"
proof -
  define nms where "nms = get_dynamic_array_mem_size_with_length G array_type arr_len"
  obtain nd h1 where gm: "guc_malloc (check_int nms h) nms = (nd, h1)"
    by (cases "guc_malloc (check_int nms h) nms")
  have h1: "frame_inv h0 h1" and nn: "newer h0 nd" using guc_malloc_inv [OF gm] h by simp_all
  obtain old_data h2 where rp: "rd_ptr h1 res_arr = (old_data, h2)" by (cases "rd_ptr h1 res_arr")
  have h2: "frame_inv h0 h2" by (rule rd_ptr_inv [OF rp h1])
  have on: "newer h0 old_data" by (rule rd_ptr_newer [OF rp h1 p])
  define h3 where "h3 = (if lms \<noteq> 0 \<and> lms < nms
                             then memset_zero (memcpy h2 nd old_data lms) (ptr_add nd lms) (nms - lms)
                             else if lms \<noteq> 0 then memcpy h2 nd old_data nms else h2)"
  have h3: "frame_inv h0 h3" using h2 nn on by (simp add: h3_def memcpy_inv memset_zero_inv)
  from run gm rp have e: "new_data = nd" "h' = replace_snapshot h3 res_arr old_data nd arr_len"
    by (auto simp: resize_extended_def Let_def nms_def h3_def)
  show "frame_inv h0 h'" using e h3 p on nn by (simp add: replace_snapshot_inv)
  show "newer h0 new_data" using e nn by simp
qed

lemma parse_size_field_inv:
  assumes R: "keeps h0 rec" and h: "frame_inv h0 (mem st)"
    and run: "parse_size_field rec G strval array_type cnt st = Some (r, st')"
  shows "frame_inv h0 (mem st')"
proof (cases "status (find_field (scheme st) strval ''size'') = PARSER_OK")
  case False
  with run h show ?thesis by (auto simp: parse_size_field_def Let_def split: if_splits)
next
  case True
  obtain dyn_array h1 where al: "alloc_DynArrTmp (mem st) = (dyn_array, h1)"
    by (cases "alloc_DynArrTmp (mem st)")
  have h1: "frame_inv h0 h1" and dn: "newer h0 dyn_array" using alloc_DynArrTmp_inv [OF al h] by simp_all
  from run True al obtain er st2 where
    pe: "parse_struct_element rec G (res_str (find_field (scheme st) strval ''size'')) array_type
           dyn_array (st\<lparr>mem := h1\<rparr>) = Some (er, st2)"
    by (auto simp: parse_size_field_def Let_def split: option.splits)
  have h2: "frame_inv h0 (mem st2)"
    by (rule parse_struct_element_inv [OF R _ dn pe]) (simp add: h1)
  obtain sz h3 where ri: "rd_int (mem st2) (dynamic_array_size_ptr dyn_array) = (sz, h3)"
    by (cases "rd_int (mem st2) (dynamic_array_size_ptr dyn_array)")
  have h3: "frame_inv h0 h3" by (rule rd_int_inv [OF ri h2])
  have "frame_inv h0 (guc_free (if status er = PARSER_OK then h3 else mem st2) dyn_array)"
    using h2 h3 dn by (simp add: guc_free_inv)
  with run True al pe ri show ?thesis
    by (auto simp: parse_size_field_def Let_def split: if_splits)
qed

lemma parse_data_field_inv:
  assumes R: "keeps h0 rec" and h: "frame_inv h0 (mem st)" and p: "newer h0 res_arr"
    and run: "parse_data_field n rec G strval array_type res_arr cnt last_arr_len lms arr_len pe0 st
              = Some (r, st')"
  shows "frame_inv h0 (mem st')"
proof -
  have A: "\<And>x new_data h1. resize_extended G array_type res_arr lms x (mem st) = (new_data, h1)
             \<Longrightarrow> frame_inv h0 h1"
    by (rule resize_extended_inv(1) [OF h p])
  have B: "\<And>x y new_data h1 c. resize_extended G array_type res_arr lms x (check_int y (mem st)) = (new_data, h1)
             \<Longrightarrow> parse_prepared_array n rec G c array_type new_data (st\<lparr>mem := h1\<rparr>) = Some (r, st')
             \<Longrightarrow> frame_inv h0 (mem st')"
  proof -
    fix x y new_data h1 c
    assume re: "resize_extended G array_type res_arr lms x (check_int y (mem st)) = (new_data, h1)"
      and pp: "parse_prepared_array n rec G c array_type new_data (st\<lparr>mem := h1\<rparr>) = Some (r, st')"
    have hc: "frame_inv h0 (check_int y (mem st))" using h by simp
    from resize_extended_inv [OF hc p re] have "frame_inv h0 h1" "newer h0 new_data" by simp_all
    with parse_prepared_array_inv [OF R _ _ pp] show "frame_inv h0 (mem st')" by simp
  qed
  from run h show ?thesis
    by (auto simp: parse_data_field_def Let_def split: if_splits prod.splits dest: A B)
qed

lemma parse_extended_dynamic_array_inv:
  assumes R: "keeps h0 rec" and h: "frame_inv h0 (mem st)" and p: "newer h0 res_arr"
    and run: "parse_extended_dynamic_array n rec G strval array_type res_arr st = Some (r, st')"
  shows "frame_inv h0 (mem st')"
proof -
  obtain last_arr_len ha where ri: "rd_int (mem st) (dynamic_array_size_ptr res_arr) = (last_arr_len, ha)"
    by (cases "rd_int (mem st) (dynamic_array_size_ptr res_arr)")
  have ha: "frame_inv h0 ha" by (rule rd_int_inv [OF ri h])
  have ha': "frame_inv h0 (mem (st\<lparr>mem := ha\<rparr>))" using ha by simp
  have A: "\<And>cnt x st1. parse_size_field rec G strval array_type cnt (st\<lparr>mem := ha\<rparr>) = Some (x, st1)
             \<Longrightarrow> frame_inv h0 (mem st1)"
    by (rule parse_size_field_inv [OF R ha'])
  have B: "\<And>cnt a b c d st1.
             parse_data_field n rec G strval array_type res_arr cnt a b c d st1 = Some (r, st')
             \<Longrightarrow> frame_inv h0 (mem st1) \<Longrightarrow> frame_inv h0 (mem st')"
    by (rule parse_data_field_inv [OF R _ p])
  from run ri ha show ?thesis
    by (auto simp: parse_extended_dynamic_array_def Let_def
             split: if_splits option.splits dest!: A dest: B)
qed

lemma parse_structure_inv:
  assumes R: "keeps h0 rec" and h: "frame_inv h0 (mem st)" and p: "newer h0 res_struct"
    and run: "parse_structure n rec E G strval struct_type res_struct st = Some (r, st')"
  shows "frame_inv h0 (mem st')"
proof (cases "is_atomic_type struct_type")
  case True
  with run have "parse_atomic_type E strval struct_type res_struct st = (r, st')"
    by (simp add: parse_structure_def)
  from parse_atomic_type_inv [OF h p this] show ?thesis .
next
  case False
  show ?thesis
  proof (cases "check_braces (scheme st) strval CHR ''{'' CHR ''}''")
    case None
    with run False h show ?thesis by (auto simp: parse_structure_def)
  next
    case (Some pe)
    with run False have
      "element_loop n CHR ''}'' (\<lambda>c i. parse_struct_element rec G c struct_type res_struct)
         (Suc strval) 0 st = Some (r, st')"
      by (simp add: parse_structure_def)
    from element_loop_inv [OF parse_struct_element_inv [OF R _ p] h this] show ?thesis .
  qed
qed

lemma parse_composite_impl_inv: "keeps h0 (parse_composite_impl n E G)"
proof (induction n)
  case 0
  show ?case by (simp add: keeps_def)
next
  case (Suc n)
  show ?case
    unfolding keeps_def
  proof (intro allI impI, elim conjE)
    fix c t p st r st'
    assume h: "frame_inv h0 (mem st)" and p: "newer h0 p"
      and run: "parse_composite_impl (Suc n) E G c t p st = Some (r, st')"
    from run show "frame_inv h0 (mem st')"
      using parse_static_array_inv [OF Suc h p] parse_extended_dynamic_array_inv [OF Suc h p]
        parse_dynamic_array_inv [OF Suc h p] parse_structure_inv [OF Suc h p]
      by (auto split: if_splits)
  qed
qed

subsection \<open>The entry point\<close>


lemma keeps_compositeD:
  "keeps_composite h0 rec \<Longrightarrow> frame_inv h0 h \<Longrightarrow> newer h0 prev
   \<Longrightarrow> rec v t res prev h = Some (ok, r, h') \<Longrightarrow> frame_inv h0 h' \<and> (r = res \<or> newer h0 r)"
  unfolding keeps_composite_def by blast

lemma patch_loop_inv:
  assumes R: "keeps_composite h0 rec"
  shows "frame_inv h0 h \<Longrightarrow> newer h0 lv \<Longrightarrow> patch_loop k rec type b cur lv h = Some (ok, r, h')
         \<Longrightarrow> frame_inv h0 h' \<and> newer h0 r"
proof (induction k arbitrary: b cur lv h)
  case 0
  then show ?case by simp
next
  case (Suc k)
  show ?case
  proof (cases "char_at b cur = NUL")
    case True
    with Suc.prems show ?thesis by simp
  next
    case False
    define b1 where "b1 = b[res_str (find_same_level_symbol b cur CHR '';'') := NUL]"
    from Suc.prems(3) False obtain ok1 nv h1 where
      rc: "rec (c_string b1 cur) type Null lv h = Some (ok1, nv, h1)"
      by (auto simp: Let_def b1_def split: option.splits)
    from keeps_compositeD [OF R Suc.prems(1,2) rc]
    have h1: "frame_inv h0 h1" and nv: "newer h0 nv" by auto
    show ?thesis
    proof (cases ok1)
      case False
      with Suc.prems(3) \<open>char_at b cur \<noteq> NUL\<close> rc h1 Suc.prems(2) show ?thesis
        by (simp add: Let_def b1_def)
    next
      case True
      with Suc.prems(3) \<open>char_at b cur \<noteq> NUL\<close> rc
      have "patch_loop k rec type b1 (Suc (res_str (find_same_level_symbol b cur CHR '';''))) nv
              (guc_free h1 lv) = Some (ok, r, h')"
        by (simp add: Let_def b1_def)
      from Suc.IH [OF guc_free_inv [OF h1 Suc.prems(2)] nv this] show ?thesis .
    qed
  qed
qed

lemma parse_placeholder_patch_list_inv:
  assumes R: "keeps_composite h0 rec" and h: "frame_inv h0 h"
    and s: "newer h0 prev \<or> plain_scalars n G h0 prev type"
    and run: "parse_placeholder_patch_list n rec G v type res prev h = Some (ok, r, h')"
  shows "frame_inv h0 h' \<and> newer h0 r"
proof -
  obtain strval h1 where gs: "guc_strdup h v = (strval, h1)" by (cases "guc_strdup h v")
  note g = guc_strdup_inv [OF gs h]
  from run gs obtain lv h2 where sd: "struct_dup n G prev type h1 = Some (lv, h2)"
    by (auto simp: parse_placeholder_patch_list_def split: option.splits)
  note d = struct_dup_inv [OF g(1) s sd]
  from run gs sd obtain h3 where
    pl: "patch_loop n rec type (v @ [NUL]) 0 lv h2 = Some (ok, r, h3)" and h': "h' = guc_free h3 strval"
    by (auto simp: parse_placeholder_patch_list_def split: option.splits)
  from patch_loop_inv [OF R d pl] h' g(2) show ?thesis by (simp add: guc_free_inv)
qed

lemma parse_composite_inv:
  "frame_inv h0 h \<Longrightarrow> newer h0 prev \<or> plain_scalars n G h0 prev type
   \<Longrightarrow> parse_composite n E G v type res prev h = Some (ok, r, h')
   \<Longrightarrow> frame_inv h0 h' \<and> (r = res \<or> newer h0 r)"
proof (induction n arbitrary: v type res prev h ok r h')
  case 0
  then show ?case by simp
next
  case (Suc n)
  have R: "keeps_composite h0 (parse_composite n E G)"
    unfolding keeps_composite_def using Suc.IH by blast
  have s: "newer h0 prev \<or> plain_scalars n G h0 prev type"
    using Suc.prems(2) plain_scalars_less by blast
  show ?case
  proof (cases "is_assignment_list v")
    case True
    with Suc.prems(3)
    have "parse_placeholder_patch_list n (parse_composite n E G) G v type res prev h = Some (ok, r, h')"
      by simp
    from parse_placeholder_patch_list_inv [OF R Suc.prems(1) s this] show ?thesis by simp
  next
    case False
    obtain sp h1 where gs: "guc_strdup (if v = [] then h\<lparr>ub := True\<rparr> else h) v = (sp, h1)"
      by (cases "guc_strdup (if v = [] then h\<lparr>ub := True\<rparr> else h) v")
    have "frame_inv h0 (if v = [] then h\<lparr>ub := True\<rparr> else h)" using Suc.prems(1) by simp
    note g = guc_strdup_inv [OF gs this]
    obtain val h2 where gm: "guc_malloc h1 (get_type_size G (Some type)) = (val, h2)"
      by (cases "guc_malloc h1 (get_type_size G (Some type))")
    note m = guc_malloc_inv [OF gm g(1)]
    from Suc.prems(3) False gs gm obtain h3 where
      h3: "(if prev \<noteq> Null then struct_dup_impl n G val prev type h2
            else Some (memset_zero h2 val (get_type_size G (Some type)))) = Some h3"
      by (auto simp: Let_def split: option.splits)
    have i3: "frame_inv h0 h3"
    proof (cases "prev = Null")
      case True
      with h3 m show ?thesis by (auto simp: memset_zero_inv)
    next
      case False
      with h3 have "struct_dup_impl n G val prev type h2 = Some h3" by simp
      from struct_dup_impl_inv [OF m(1) m(2) s this] show ?thesis .
    qed
    from Suc.prems(3) False gs gm h3 obtain pr st where
      pc: "parse_composite_impl n E G 0 type val \<lparr>mem = h3, scheme = v @ [NUL]\<rparr> = Some (pr, st)"
      by (auto simp: Let_def split: option.splits)
    have i4: "frame_inv h0 (mem st)"
      by (rule keepsD [OF parse_composite_impl_inv _ m(2) pc]) (simp add: i3)
    from Suc.prems(3) False gs gm h3 pc i4 m(2) g(2) show ?thesis
      by (auto simp: Let_def guc_free_inv split: if_splits)
  qed
qed

lemma plain_scalars_Null: "plain_scalars n G h Null t"
proof (induction n arbitrary: t)
  case 0
  show ?case by simp
next
  case (Suc n)
  then show ?case
    by (auto simp: list_all_iff ptr_add_def holds_pointer_def read_int_def read_ptr_def load_def
          dynamic_array_size_ptr_def split: option.splits)
qed

text \<open>
  Claim C5, as the code has it.  Let a call of \<^verbatim>\<open>parse_composite\<close> return \<^verbatim>\<open>false\<close>,
  for any text, type, registry and host, without undefined behaviour, and let no
  \<^verbatim>\<open>bool\<close>, \<^verbatim>\<open>int\<close> or \<^verbatim>\<open>real\<close> slot that duplication visits in the previous value
  hold a pointer (no condition when there is no previous value, lemma
  \<open>plain_scalars_Null\<close>).  Then every block of memory that existed before the call is
  after the call as it was before, in content, size and allocation: the previous value,
  its strings and the buffers of its variable arrays are unchanged.
\<close>

theorem failed_parse_keeps_previous_value:
  assumes "parse_composite n E G v type result prev_val h = Some (ok, r, h')"
    and "\<not> ok"
    and "plain_scalars n G h prev_val type"
    and "\<not> ub h'"
  shows "take (length (blocks h)) (blocks h') = blocks h"
proof -
  from parse_composite_inv [OF inv_refl _ assms(1)] assms(3) have "frame_inv h h'" by simp
  then show ?thesis by (simp add: frame_inv_def kept_def)
qed

lemma failing_patch_run:
  "(case parse_composite 10 host example_types ''{name: 'g', tags: ['x']}'' ''group''
           Null Null empty_heap of
      None \<Rightarrow> False
    | Some (ok1, v1, h1) \<Rightarrow>
        ok1 \<and> plain_scalars 10 example_types h1 v1 ''group''
        \<and> (case parse_composite 10 host example_types ''{name: 'h', zz: 1}'' ''group'' Null v1 h1 of
              None \<Rightarrow> False
            | Some (ok, r, h') \<Rightarrow> \<not> ok \<and> \<not> ub h' \<and> length (blocks h1) < length (blocks h')))"
  by code_simp

theorem failed_parse_keeps_previous_value_witness:
  "\<exists>v1 h1 r h'.
     parse_composite 10 host example_types ''{name: 'g', tags: ['x']}'' ''group''
       Null Null empty_heap = Some (True, v1, h1)
     \<and> plain_scalars 10 example_types h1 v1 ''group''
     \<and> parse_composite 10 host example_types ''{name: 'h', zz: 1}'' ''group'' Null v1 h1
         = Some (False, r, h')
     \<and> \<not> ub h'
     \<and> length (blocks h1) < length (blocks h')
     \<and> take (length (blocks h1)) (blocks h') = blocks h1"
proof -
  from failing_patch_run obtain v1 h1 ok r h' where
    a: "parse_composite 10 host example_types ''{name: 'g', tags: ['x']}'' ''group''
          Null Null empty_heap = Some (True, v1, h1)"
    and b: "plain_scalars 10 example_types h1 v1 ''group''"
    and c: "parse_composite 10 host example_types ''{name: 'h', zz: 1}'' ''group'' Null v1 h1
              = Some (ok, r, h')"
    and d: "\<not> ok" "\<not> ub h'" "length (blocks h1) < length (blocks h')"
    by (auto split: option.splits)
  from failed_parse_keeps_previous_value [OF c d(1) b d(2)]
  have "take (length (blocks h1)) (blocks h') = blocks h1" .
  with a b c d show ?thesis by auto
qed

text \<open>
  Claim C5, as the spec states it, fails when a scalar slot of the previous value holds a
  pointer, which is so in a record with two fields of one name.  \<^verbatim>\<open>int[] a; real a\<close> is
  registered, and both fields are found at offset 0.  The value of \<^verbatim>\<open>{a: [1, 2]}\<close> owns
  the buffer of its array.  In a second call with this value as the previous one,
  \<^verbatim>\<open>struct_duplicate\<close> first gives the duplicate a buffer of its own and then, for the
  field of type \<^verbatim>\<open>real\<close>, copies the eight bytes at offset 0, the pointer to the buffer of
  the previous value, over it.  \<^verbatim>\<open>parse_dynamic_array\<close> releases that buffer when it
  replaces the old snapshot; then the element \<^verbatim>\<open>x\<close> is not an integer and the call
  fails, with the buffer of the previous value released.
\<close>

lemma alias_registers:
  "init_type_definition builtin_types (new_type ''alias'' ''int[] a; real a'') = Inr alias_type"
  by code_simp

theorem failed_parse_frees_buffer_of_previous_value:
  "(case parse_composite 10 host alias_types ''{a: [1, 2]}'' ''alias'' Null Null empty_heap of
      None \<Rightarrow> False
    | Some (ok1, v1, h1) \<Rightarrow>
        ok1 \<and> \<not> ub h1
        \<and> (case read_ptr h1 v1 of
              Some (Ptr b off) \<Rightarrow>
                b < length (blocks h1) \<and> alive (blocks h1 ! b)
                \<and> (case parse_composite 10 host alias_types ''{a: [x]}'' ''alias'' Null v1 h1 of
                      None \<Rightarrow> False
                    | Some (ok, r, h') \<Rightarrow> \<not> ok \<and> \<not> ub h' \<and> \<not> alive (blocks h' ! b))
            | _ \<Rightarrow> False))"
  by code_simp

end
